theory Spec2Isabelle
  imports Main "HOL-Library.Word" "HOL-Library.Signed_Division"
begin

section \<open>gobonsai: data model\<close>

text \<open>
  The embedding follows the coloured generator (the file with \<open>colorCanvas\<close>,
  \<open>GetBranchColor\<close> and \<open>SetPixelLive\<close>); the older \<open>src/main.go\<close> is the same
  program without colours and without the first-step lift; its \<open>SetPixel\<close> is
  embedded as \<open>SetPixel0\<close> and its adjustment of \<open>dy\<close> as \<open>adjust_dy0\<close>.

  Go's \<open>int\<close> is modelled as \<open>int\<close>: every integer of the generator is a life
  counter (at most 200 at the top), a coordinate that moves by at most three cells per step,
  or a counter of branches, so the 64-bit range is never approached by a run that returns.
  A \<open>rune\<close> is modelled as an 8-bit \<open>char\<close>: every rune the program stores is an
  ASCII literal or \<open>rune(b)\<close> of one byte \<open>b\<close> of a leaf string. A Go string is its
  byte sequence, a \<open>char list\<close>.
\<close>

type_synonym rune = char

datatype BranchType = Trunk | ShootLeft | ShootRight | Dying | Dead

datatype panic = DivideByZero | IndexOutOfRange | IntnNonPositive | MakeSliceLen

text \<open>
  \<open>TimeStep\<close> and \<open>TimeWait\<close> (float64 durations that only feed \<open>time.Sleep\<close>) are
  left out of the record.
\<close>

record Config =
  Live :: bool
  Infinite :: bool
  PrintTree :: bool
  LifeStart :: int
  Multiplier :: int
  BaseType :: int
  Seed :: "64 word"
  Message :: string
  Leaves :: "string list"
  Width :: int
  Height :: int
  UseColors :: bool

text \<open>
  \<open>math/rand\<close> belongs to Go's standard library, not to the repository. A generator is
  modelled as the infinite sequence \<open>draws\<close> of raw values it is going to produce and
  the position \<open>pos\<close> of the next one; \<open>Intn n\<close> consumes one raw value and reduces
  it into \<open>[0, n)\<close>, and panics for \<open>n \<le> 0\<close> as the library documents. Any sequence
  of results a real generator returns is the behaviour of some \<open>draws\<close>.
\<close>

record Rand =
  draws :: "nat \<Rightarrow> nat"
  pos :: nat

record BonsaiTree =
  canvas :: "rune list list"
  colorCanvas :: "string list list"
  config :: Config
  branches :: int
  shoots :: int
  rng :: Rand
  initialized :: bool
  messageOffset :: int

definition bnd :: "panic + 'a \<Rightarrow> ('a \<Rightarrow> panic + 'b) \<Rightarrow> panic + 'b" where
  "bnd m f = (case m of Inl e \<Rightarrow> Inl e | Inr v \<Rightarrow> f v)"

definition Intn :: "Rand \<Rightarrow> int \<Rightarrow> panic + (int \<times> Rand)" where
  "Intn r n =
     (if n \<le> 0 then Inl IntnNonPositive
      else Inr (int (draws r (pos r)) mod n, r\<lparr>pos := pos r + 1\<rparr>))"

text \<open>\<open>bt.rng.Intn(n)\<close>: the generator lives in the tree and is advanced in place.\<close>

definition roll :: "BonsaiTree \<Rightarrow> int \<Rightarrow> panic + (int \<times> BonsaiTree)" where
  "roll bt n = bnd (Intn (rng bt) n) (\<lambda>(v, r). Inr (v, bt\<lparr>rng := r\<rparr>))"

text \<open>Go's \<open>a % b\<close>: truncated remainder, a run-time panic for \<open>b = 0\<close>.\<close>

definition go_mod :: "int \<Rightarrow> int \<Rightarrow> panic + int" where
  "go_mod a b = (if b = 0 then Inl DivideByZero else Inr (a smod b))"

text \<open>Go's \<open>a / b\<close> by a non-zero constant: truncated quotient.\<close>

definition go_div :: "int \<Rightarrow> int \<Rightarrow> int" where
  "go_div a b = a sdiv b"

section \<open>Canvas\<close>

text \<open>ANSI colour constants used by the generator.\<close>

definition ColorYellow :: string where
  "ColorYellow = CHR 0x1B # ''[33m''"

definition ColorBrightBlack :: string where
  "ColorBrightBlack = CHR 0x1B # ''[90m''"

definition ColorBrightGreen :: string where
  "ColorBrightGreen = CHR 0x1B # ''[92m''"

definition ColorBrightYellow :: string where
  "ColorBrightYellow = CHR 0x1B # ''[93m''"

definition ColorMediumGreen :: string where
  "ColorMediumGreen = CHR 0x1B # ''[38;5;28m''"

text \<open>
  The terminal size comes from \<open>getTerminalSize\<close> (an operating-system query); it is the
  pair \<open>(width, height)\<close> passed in. \<open>make\<close> panics on a negative length. The
  generator is \<open>rand.New(rand.NewSource(config.Seed))\<close>: the library's seeding is the
  parameter \<open>src\<close>, from a seed to the sequence of raw values.
\<close>

definition NewBonsaiTree ::
  "(64 word \<Rightarrow> nat \<Rightarrow> nat) \<Rightarrow> Config \<Rightarrow> int \<Rightarrow> int \<Rightarrow> panic + BonsaiTree" where
  "NewBonsaiTree src cfg width height =
     (let cfg' = cfg\<lparr>Width := width, Height := height\<rparr> in
      if height < 0 then Inl MakeSliceLen
      else if 0 < height \<and> width < 0 then Inl MakeSliceLen
      else Inr \<lparr>canvas = replicate (nat height) (replicate (nat width) CHR '' ''),
                colorCanvas = replicate (nat height) (replicate (nat width) ''''),
                config = cfg',
                branches = 0,
                shoots = 0,
                rng = \<lparr>draws = src (Seed cfg'), pos = 0\<rparr>,
                initialized = False,
                messageOffset = 0\<rparr>)"

text \<open>The guard shared by \<open>SetPixel\<close> and \<open>SetPixelLive\<close>.\<close>

definition in_bounds :: "rune list list \<Rightarrow> int \<Rightarrow> int \<Rightarrow> bool" where
  "in_bounds cv x y \<longleftrightarrow>
     y \<ge> 0 \<and> y < int (length cv) \<and> x \<ge> 0 \<and> x < int (length (cv ! nat y))"

text \<open>\<open>g[y][x] = v\<close> with Go's index checks.\<close>

definition set_cell :: "'a list list \<Rightarrow> int \<Rightarrow> int \<Rightarrow> 'a \<Rightarrow> panic + 'a list list" where
  "set_cell g x y v =
     (if 0 \<le> y \<and> y < int (length g) \<and> 0 \<le> x \<and> x < int (length (g ! nat y))
      then Inr (g[nat y := (g ! nat y)[nat x := v]])
      else Inl IndexOutOfRange)"

definition SetPixel :: "BonsaiTree \<Rightarrow> int \<Rightarrow> int \<Rightarrow> rune \<Rightarrow> string \<Rightarrow> panic + BonsaiTree" where
  "SetPixel bt x y char color =
     (if in_bounds (canvas bt) x y then
        bnd (set_cell (canvas bt) x y char) (\<lambda>cv.
        bnd (set_cell (colorCanvas bt) x y color) (\<lambda>cc.
        Inr (bt\<lparr>canvas := cv, colorCanvas := cc\<rparr>)))
      else Inr bt)"

text \<open>
  \<open>SetPixelLive\<close> stores the character only; in live mode it also prints it at the
  cursor, which changes no state of the generator.
\<close>

definition SetPixelLive :: "BonsaiTree \<Rightarrow> int \<Rightarrow> int \<Rightarrow> rune \<Rightarrow> string \<Rightarrow> panic + BonsaiTree" where
  "SetPixelLive bt x y char color =
     (if in_bounds (canvas bt) x y then
        bnd (set_cell (canvas bt) x y char) (\<lambda>cv. Inr (bt\<lparr>canvas := cv\<rparr>))
      else Inr bt)"

text \<open>\<open>SetPixel\<close> of \<open>src/main.go\<close>: three arguments, no colour grid.\<close>

definition SetPixel0 :: "BonsaiTree \<Rightarrow> int \<Rightarrow> int \<Rightarrow> rune \<Rightarrow> panic + BonsaiTree" where
  "SetPixel0 bt x y char =
     (if in_bounds (canvas bt) x y then
        bnd (set_cell (canvas bt) x y char) (\<lambda>cv. Inr (bt\<lparr>canvas := cv\<rparr>))
      else Inr bt)"

section \<open>Movement deltas\<close>

text \<open>
  \<open>int(float64(m)*0.5+0.5)\<close>: for an integer \<open>m\<close> the float is exactly
  \<open>(m+1)/2\<close>, and the conversion truncates toward zero.
\<close>

definition half_up :: "int \<Rightarrow> int" where
  "half_up m = (m + 1) sdiv 2"

definition trunk_dx :: "int \<Rightarrow> int" where
  "trunk_dx dice =
     (if dice = 0 then -2 else if dice \<le> 3 then -1 else if dice \<le> 5 then 0
      else if dice \<le> 8 then 1 else if dice = 9 then 2 else 0)"

definition shoot_dy :: "int \<Rightarrow> int" where
  "shoot_dy dice = (if dice \<le> 1 then -1 else if dice \<le> 7 then 0 else 1)"

definition shootLeft_dx :: "int \<Rightarrow> int" where
  "shootLeft_dx dice =
     (if dice \<le> 1 then -2 else if dice \<le> 5 then -1 else if dice \<le> 8 then 0 else 1)"

definition shootRight_dx :: "int \<Rightarrow> int" where
  "shootRight_dx dice =
     (if dice \<le> 1 then 2 else if dice \<le> 5 then 1 else if dice \<le> 8 then 0 else -1)"

definition dying_dy :: "int \<Rightarrow> int" where
  "dying_dy dice = (if dice \<le> 1 then -1 else if dice \<le> 8 then 0 else 1)"

definition dying_dx :: "int \<Rightarrow> int" where
  "dying_dx dice =
     (if dice = 0 then -3 else if dice \<le> 2 then -2 else if dice \<le> 5 then -1
      else if dice \<le> 8 then 0 else if dice \<le> 11 then 1 else if dice \<le> 13 then 2 else 3)"

definition dead_dy :: "int \<Rightarrow> int" where
  "dead_dy dice = (if dice \<le> 2 then -1 else if dice \<le> 6 then 0 else 1)"

text \<open>\<open>GetDeltas\<close> returns \<open>(dx, dy)\<close> and leaves the generator advanced.\<close>

definition GetDeltas ::
  "BonsaiTree \<Rightarrow> BranchType \<Rightarrow> int \<Rightarrow> int \<Rightarrow> panic + (int \<times> int \<times> BonsaiTree)" where
  "GetDeltas bt branchType life age =
     (case branchType of
        Trunk \<Rightarrow>
          if age \<le> 2 \<or> life < 4 then
            bnd (roll bt 3) (\<lambda>(d, bt1). Inr (d - 1, 0, bt1))
          else if age < Multiplier (config bt) * 3 then
            bnd (go_mod age (half_up (Multiplier (config bt)))) (\<lambda>m.
            bnd (roll bt 10) (\<lambda>(dice, bt1).
            Inr (trunk_dx dice, if m = 0 then -1 else 0, bt1)))
          else
            bnd (roll bt 10) (\<lambda>(d1, bt1).
            bnd (roll bt1 3) (\<lambda>(d2, bt2).
            Inr (d2 - 1, if d1 > 2 then -1 else 0, bt2)))
      | ShootLeft \<Rightarrow>
          bnd (roll bt 10) (\<lambda>(d1, bt1).
          bnd (roll bt1 10) (\<lambda>(d2, bt2).
          Inr (shootLeft_dx d2, shoot_dy d1, bt2)))
      | ShootRight \<Rightarrow>
          bnd (roll bt 10) (\<lambda>(d1, bt1).
          bnd (roll bt1 10) (\<lambda>(d2, bt2).
          Inr (shootRight_dx d2, shoot_dy d1, bt2)))
      | Dying \<Rightarrow>
          bnd (roll bt 10) (\<lambda>(d1, bt1).
          bnd (roll bt1 15) (\<lambda>(d2, bt2).
          Inr (dying_dx d2, dying_dy d1, bt2)))
      | Dead \<Rightarrow>
          bnd (roll bt 10) (\<lambda>(d1, bt1).
          bnd (roll bt1 3) (\<lambda>(d2, bt2).
          Inr (d2 - 1, dead_dy d1, bt2))))"

section \<open>Glyphs and colours\<close>

text \<open>\<open>xs[i]\<close> with Go's index check.\<close>

definition index_at :: "'a list \<Rightarrow> int \<Rightarrow> panic + 'a" where
  "index_at xs i =
     (if 0 \<le> i \<and> i < int (length xs) then Inr (xs ! nat i) else Inl IndexOutOfRange)"

definition backslash :: rune where
  "backslash = CHR 0x5C"

text \<open>
  The \<open>Dying, Dead\<close> case of \<open>ChooseChar\<close>:
  \<open>rune(bt.config.Leaves[bt.rng.Intn(len(bt.config.Leaves))][0])\<close>, or \<open>&\<close> for an
  empty list.
\<close>

definition leaf_glyph :: "BonsaiTree \<Rightarrow> panic + (rune \<times> BonsaiTree)" where
  "leaf_glyph bt =
     (if length (Leaves (config bt)) > 0 then
        bnd (roll bt (int (length (Leaves (config bt))))) (\<lambda>(i, bt1).
        bnd (index_at (Leaves (config bt)) i) (\<lambda>leaf.
        bnd (index_at leaf 0) (\<lambda>b. Inr (b, bt1))))
      else Inr (CHR ''&'', bt))"

text \<open>
  \<open>BranchType\<close> is an \<open>int\<close> in Go and \<open>ChooseChar\<close> ends in \<open>return '?'\<close> for a
  value outside the five constants; no caller passes one, and the datatype has none.
\<close>

definition ChooseChar ::
  "BonsaiTree \<Rightarrow> BranchType \<Rightarrow> int \<Rightarrow> int \<Rightarrow> int \<Rightarrow> panic + (rune \<times> BonsaiTree)" where
  "ChooseChar bt branchType life dx dy =
     (case (if life < 4 then Dying else branchType) of
        Trunk \<Rightarrow>
          Inr (if dy = 0 then CHR ''~'' else if dx < 0 then backslash
               else if dx = 0 then CHR ''|'' else CHR ''/'', bt)
      | ShootLeft \<Rightarrow>
          Inr (if dy > 0 then backslash else if dy = 0 then CHR ''_''
               else if dx < 0 then backslash else if dx = 0 then CHR ''|'' else CHR ''/'', bt)
      | ShootRight \<Rightarrow>
          Inr (if dy > 0 then CHR ''/'' else if dy = 0 then CHR ''_''
               else if dx < 0 then backslash else if dx = 0 then CHR ''|'' else CHR ''/'', bt)
      | Dying \<Rightarrow> leaf_glyph bt
      | Dead \<Rightarrow> leaf_glyph bt)"

definition GetBranchColor :: "BonsaiTree \<Rightarrow> BranchType \<Rightarrow> panic + (string \<times> BonsaiTree)" where
  "GetBranchColor bt branchType =
     (if \<not> UseColors (config bt) then Inr ([], bt)
      else case branchType of
        Trunk \<Rightarrow> Inr (ColorYellow, bt)
      | ShootLeft \<Rightarrow>
          bnd (roll bt 4) (\<lambda>(d, bt1). Inr (if d = 0 then ColorYellow else ColorBrightYellow, bt1))
      | ShootRight \<Rightarrow>
          bnd (roll bt 4) (\<lambda>(d, bt1). Inr (if d = 0 then ColorYellow else ColorBrightYellow, bt1))
      | Dying \<Rightarrow>
          bnd (roll bt 10) (\<lambda>(dice, bt1).
          Inr (if dice \<le> 8 then ColorBrightGreen else if dice = 9 then ColorMediumGreen
               else if dice = 9 then ColorBrightYellow else [], bt1))
      | Dead \<Rightarrow>
          bnd (roll bt 10) (\<lambda>(dice, bt1).
          Inr (if dice \<le> 8 then ColorBrightGreen else if dice = 9 then ColorMediumGreen
               else if dice = 9 then ColorBrightYellow else [], bt1)))"

section \<open>The branch generator\<close>

text \<open>\<open>age := bt.config.LifeStart - life\<close>, with \<open>life\<close> already decremented.\<close>

definition age_of :: "Config \<Rightarrow> int \<Rightarrow> int" where
  "age_of cfg life = LifeStart cfg - life"

text \<open>
  The two adjustments of \<open>dy\<close> after \<open>GetDeltas\<close>: the ground clamp
  (\<open>dy > 0 && y > Height-7\<close>) and the lift (\<open>age == 1 && dy >= 0\<close>).
\<close>

definition adjust_dy :: "Config \<Rightarrow> int \<Rightarrow> int \<Rightarrow> int \<Rightarrow> int" where
  "adjust_dy cfg y age dy =
     (let dy1 = (if dy > 0 \<and> y > Height cfg - 7 then dy - 1 else dy)
      in if age = 1 \<and> dy1 \<ge> 0 then -2 else dy1)"

text \<open>
  The same place in \<open>src/main.go\<close>: the ground clamp alone, with a margin of 3, and no
  lift.
\<close>

definition adjust_dy0 :: "Config \<Rightarrow> int \<Rightarrow> int \<Rightarrow> int" where
  "adjust_dy0 cfg y dy = (if dy > 0 \<and> y > Height cfg - 3 then dy - 1 else dy)"

text \<open>
  The branching logic of one iteration. Every arm of the source ends in at most one call
  \<open>bt.Branch(x, y, kind, life')\<close>, so the decision is returned as the tree (generator
  advanced, \<open>shoots\<close> counted), the new \<open>shootCooldown\<close>, and the child to grow, if any.
  \<open>||\<close> and \<open>&&\<close> evaluate left to right: \<open>life % Multiplier\<close> is computed only
  when \<open>Intn(3)\<close> is not 0, and \<open>Intn(8)\<close> is drawn before \<open>life > 7\<close> is tested.
\<close>

definition spawn ::
  "BonsaiTree \<Rightarrow> BranchType \<Rightarrow> int \<Rightarrow> int
     \<Rightarrow> panic + (BonsaiTree \<times> int \<times> (BranchType \<times> int) option)" where
  "spawn bt branchType life shootCooldown =
     (let m = Multiplier (config bt) in
      if life < 3 then Inr (bt, shootCooldown, Some (Dead, life))
      else if branchType = Trunk \<and> life < m + 2 then Inr (bt, shootCooldown, Some (Dying, life))
      else if (branchType = ShootLeft \<or> branchType = ShootRight) \<and> life < m + 2
        then Inr (bt, shootCooldown, Some (Dying, life))
      else if branchType = Trunk then
        bnd (roll bt 3) (\<lambda>(d3, bt1).
        bnd (if d3 = 0 then Inr True else bnd (go_mod life m) (\<lambda>r. Inr (r = 0))) (\<lambda>fire.
        if fire then
          bnd (roll bt1 8) (\<lambda>(d8, bt2).
          if d8 = 0 \<and> life > 7 then
            bnd (roll bt2 5) (\<lambda>(d5, bt3). Inr (bt3, m * 2, Some (Trunk, life + d5 - 2)))
          else if shootCooldown \<le> 0 then
            (let bt3 = bt2\<lparr>shoots := shoots bt2 + 1\<rparr> in
             Inr (bt3, m * 2,
                  Some (if shoots bt3 smod 2 = 0 then ShootLeft else ShootRight, life + m)))
          else Inr (bt2, shootCooldown, None))
        else Inr (bt1, shootCooldown, None)))
      else Inr (bt, shootCooldown, None))"

text \<open>
  The first half of an iteration, for the decremented \<open>life\<close>: deltas, clamp and lift,
  branching decision.
\<close>

definition decide ::
  "BonsaiTree \<Rightarrow> int \<Rightarrow> BranchType \<Rightarrow> int \<Rightarrow> int
     \<Rightarrow> panic + (int \<times> int \<times> int \<times> (BranchType \<times> int) option \<times> BonsaiTree)" where
  "decide bt y branchType life shootCooldown =
     (let age = age_of (config bt) life in
      bnd (GetDeltas bt branchType life age) (\<lambda>(dx, dy0, bt1).
      let dy = adjust_dy (config bt1) y age dy0 in
      bnd (spawn bt1 branchType life shootCooldown) (\<lambda>(bt2, cd, child).
      Inr (dx, dy, cd, child, bt2))))"

text \<open>
  The second half: glyph, colour, and the write at the moved position. The sleep of live
  mode changes no state.
\<close>

definition stamp ::
  "BonsaiTree \<Rightarrow> int \<Rightarrow> int \<Rightarrow> BranchType \<Rightarrow> int \<Rightarrow> int \<Rightarrow> int \<Rightarrow> panic + BonsaiTree" where
  "stamp bt x y branchType life dx dy =
     bnd (ChooseChar bt branchType life dx dy) (\<lambda>(char, bt1).
     bnd (GetBranchColor bt1 branchType) (\<lambda>(color, bt2).
     if Live (config bt2) then SetPixelLive bt2 x y char color
     else SetPixel bt2 x y char color))"

text \<open>
  \<open>Branch\<close> recurses inside its loop and may not return, so the loop takes fuel: each
  iteration and each call of a child costs one unit, and \<open>None\<close> means that the fuel ran
  out. \<open>branch_loop\<close> is the \<open>for life > 0\<close> loop with its local variables as
  arguments; the child call is the body of \<open>Branch\<close> (count the branch, start the
  cooldown at \<open>Multiplier\<close>, run the loop).
\<close>

text \<open>Sequencing of a computation that may run out of fuel or panic.\<close>

definition obnd ::
  "(panic + 'a) option \<Rightarrow> ('a \<Rightarrow> (panic + 'b) option) \<Rightarrow> (panic + 'b) option" where
  "obnd m f = (case m of None \<Rightarrow> None | Some (Inl e) \<Rightarrow> Some (Inl e) | Some (Inr v) \<Rightarrow> f v)"

fun branch_loop ::
  "nat \<Rightarrow> BonsaiTree \<Rightarrow> int \<Rightarrow> int \<Rightarrow> BranchType \<Rightarrow> int \<Rightarrow> int
     \<Rightarrow> (panic + BonsaiTree) option" where
  "branch_loop 0 bt x y branchType life shootCooldown = None"
| "branch_loop (Suc n) bt x y branchType life shootCooldown =
     (if life > 0 then
        obnd (Some (decide bt y branchType (life - 1) shootCooldown)) (\<lambda>(dx, dy, cd, child, bt1).
        obnd (case child of
                None \<Rightarrow> Some (Inr bt1)
              | Some (kind, childLife) \<Rightarrow>
                  branch_loop n (bt1\<lparr>branches := branches bt1 + 1\<rparr>) x y kind childLife
                    (Multiplier (config bt1))) (\<lambda>bt2.
        obnd (Some (stamp bt2 (x + dx) (y + dy) branchType (life - 1) dx dy)) (\<lambda>bt3.
        branch_loop n bt3 (x + dx) (y + dy) branchType (life - 1) (cd - 1))))
      else Some (Inr bt))"

definition Branch ::
  "nat \<Rightarrow> BonsaiTree \<Rightarrow> int \<Rightarrow> int \<Rightarrow> BranchType \<Rightarrow> int \<Rightarrow> (panic + BonsaiTree) option" where
  "Branch fuel bt x y branchType life =
     branch_loop fuel (bt\<lparr>branches := branches bt + 1\<rparr>) x y branchType life
       (Multiplier (config bt))"

section \<open>The pot\<close>

definition GetBaseColor :: "BonsaiTree \<Rightarrow> string" where
  "GetBaseColor bt = (if \<not> UseColors (config bt) then [] else ColorBrightBlack)"

text \<open>
  \<open>if bt.config.Live { bt.SetPixelLive(...) } else { bt.SetPixel(...) }\<close>, as written
  at every write of \<open>DrawBase\<close>.
\<close>

definition put :: "BonsaiTree \<Rightarrow> int \<Rightarrow> int \<Rightarrow> rune \<Rightarrow> string \<Rightarrow> panic + BonsaiTree" where
  "put bt x y char color =
     (if Live (config bt) then SetPixelLive bt x y char color else SetPixel bt x y char color)"

text \<open>
  \<open>for i, char := range s\<close> over an ASCII literal, writing row \<open>y\<close> from column
  \<open>startX\<close>. \<open>cell i char\<close> is the body's choice of character and colour, \<open>None\<close>
  when the iteration writes nothing.
\<close>

fun draw_line ::
  "(int \<Rightarrow> rune \<Rightarrow> panic + (rune \<times> string) option) \<Rightarrow> int \<Rightarrow> int \<Rightarrow> int \<Rightarrow> string
     \<Rightarrow> BonsaiTree \<Rightarrow> panic + BonsaiTree" where
  "draw_line cell startX y i [] bt = Inr bt"
| "draw_line cell startX y i (char # rest) bt =
     (case cell i char of
        Inl e \<Rightarrow> Inl e
      | Inr None \<Rightarrow> draw_line cell startX y (i + 1) rest bt
      | Inr (Some (c, color)) \<Rightarrow>
          (case put bt (startX + i) y c color of
             Inl e \<Rightarrow> Inl e
           | Inr bt1 \<Rightarrow> draw_line cell startX y (i + 1) rest bt1))"

definition grassChars :: string where
  "grassChars = ''.,~'' @ [CHR 0x60, CHR 0x27] @ ''^'' @ [CHR 0x22] @ ''*o%''"

definition plain_cell :: "string \<Rightarrow> int \<Rightarrow> rune \<Rightarrow> panic + (rune \<times> string) option" where
  "plain_cell color i char = Inr (Some (char, color))"

text \<open>The body of the loop over the rim of the large pot.\<close>

definition rim_cell :: "string \<Rightarrow> string \<Rightarrow> int \<Rightarrow> rune \<Rightarrow> panic + (rune \<times> string) option" where
  "rim_cell baseColor grassColor i char =
     (if char = CHR ''('' \<or> char = CHR '')'' \<or> char = CHR ''^'' then Inr (Some (char, baseColor))
      else if char = CHR ''_'' then
        bnd (go_mod ((i - 7) + int (length grassChars)) (int (length grassChars))) (\<lambda>index.
        bnd (index_at grassChars index) (\<lambda>g. Inr (Some (g, grassColor))))
      else if char = CHR ''.'' \<or> char = CHR ''/'' \<or> char = CHR ''~'' \<or> char = backslash
        then Inr (Some (char, ColorYellow))
      else if i > 0 \<and> i < 30 then
        (if char = CHR '' '' then
           bnd (go_mod (i - 7) (int (length grassChars))) (\<lambda>index.
           bnd (index_at grassChars index) (\<lambda>g. Inr (Some (g, grassColor))))
         else Inr (Some (char, grassColor)))
      else Inr (Some (char, baseColor)))"

text \<open>The body of the loop over the grass line of the small pot, with its own guard.\<close>

definition grass_cell ::
  "Config \<Rightarrow> int \<Rightarrow> int \<Rightarrow> string \<Rightarrow> int \<Rightarrow> rune \<Rightarrow> panic + (rune \<times> string) option" where
  "grass_cell cfg grassStartX baseY grassColor i char =
     (if grassStartX + i \<ge> 0 \<and> grassStartX + i < Width cfg \<and> baseY - 3 \<ge> 0
      then Inr (Some (char, grassColor)) else Inr None)"

definition pot1_rim :: string where
  "pot1_rim = '':___________./~~~'' @ [backslash] @ ''.___________:''"

definition pot1_line2 :: string where
  "pot1_line2 = '' '' @ [backslash] @ ''                           / ''"

definition pot1_line1 :: string where
  "pot1_line1 = ''  '' @ [backslash] @ ''_________________________/ ''"

definition pot1_base :: string where
  "pot1_base = ''   (^)                 (^)   ''"

definition pot2_grassLine :: string where
  "pot2_grassLine =
     ''.,~'' @ [CHR 0x60, CHR 0x27] @ ''^'' @ [CHR 0x22] @
     ''.,~'' @ [CHR 0x60, CHR 0x27] @ ''^'' @ [CHR 0x22] @
     ''.,~'' @ [CHR 0x60, CHR 0x27] @ ''^'' @ [CHR 0x22] @ ''.''"

definition pot2_line2 :: string where
  "pot2_line2 = ''  (^^^^^^^)  ''"

definition pot2_line1 :: string where
  "pot2_line1 = '' (           ) ''"

definition pot2_base :: string where
  "pot2_base = ''(---./~~~'' @ [backslash] @ ''.---)''"

definition start_of :: "int \<Rightarrow> string \<Rightarrow> int" where
  "start_of centerX s = centerX - go_div (int (length s)) 2"

definition DrawBase :: "BonsaiTree \<Rightarrow> panic + BonsaiTree" where
  "DrawBase bt =
     (if BaseType (config bt) = 0 then Inr bt
      else
        let baseY = Height (config bt) - 1;
            centerX = go_div (Width (config bt)) 2;
            grassColor = (if UseColors (config bt) then ColorBrightGreen else [])
        in
        if BaseType (config bt) = 1 then
          (let baseColor = GetBaseColor bt in
           bnd (draw_line (rim_cell baseColor grassColor) (start_of centerX pot1_rim)
                  (baseY - 3) 0 pot1_rim bt) (\<lambda>bt1.
           bnd (draw_line (plain_cell baseColor) (start_of centerX pot1_line2)
                  (baseY - 2) 0 pot1_line2 bt1) (\<lambda>bt2.
           bnd (draw_line (plain_cell baseColor) (start_of centerX pot1_line1)
                  (baseY - 1) 0 pot1_line1 bt2) (\<lambda>bt3.
           draw_line (plain_cell baseColor) (start_of centerX pot1_base)
                  baseY 0 pot1_base bt3))))
        else if BaseType (config bt) = 2 then
          (let grassStartX = start_of centerX pot2_grassLine;
               grassColor2 = (if UseColors (config bt) then ColorMediumGreen else [])
           in
           bnd (draw_line (grass_cell (config bt) grassStartX baseY grassColor2) grassStartX
                  (baseY - 3) 0 pot2_grassLine bt) (\<lambda>bt1.
           bnd (draw_line (plain_cell grassColor2) (start_of centerX pot2_line2)
                  (baseY - 2) 0 pot2_line2 bt1) (\<lambda>bt2.
           let baseColor = GetBaseColor bt2 in
           bnd (draw_line (plain_cell baseColor) (start_of centerX pot2_line1)
                  (baseY - 1) 0 pot2_line1 bt2) (\<lambda>bt3.
           draw_line (plain_cell baseColor) (start_of centerX pot2_base)
                  baseY 0 pot2_base bt3))))
        else Inr bt)"

section \<open>Growing a tree\<close>

text \<open>
  The clearing loop of \<open>GrowTree\<close> writes \<open>canvas[i][j]\<close> and \<open>colorCanvas[i][j]\<close>
  for every cell of \<open>canvas\<close>; it panics when the colour grid lacks one of these cells.
\<close>

definition clear_ok :: "rune list list \<Rightarrow> string list list \<Rightarrow> bool" where
  "clear_ok cv cc \<longleftrightarrow>
     list_all (\<lambda>i. cv ! i = [] \<or> (i < length cc \<and> length (cv ! i) \<le> length (cc ! i)))
       [0..<length cv]"

definition clear_canvas :: "BonsaiTree \<Rightarrow> panic + BonsaiTree" where
  "clear_canvas bt =
     (let cv = canvas bt; cc = colorCanvas bt in
      if clear_ok cv cc then
        Inr (bt\<lparr>canvas := map (\<lambda>row. replicate (length row) CHR '' '') cv,
                colorCanvas :=
                  map (\<lambda>i. if i < length cv
                            then replicate (length (cv ! i)) [] @ drop (length (cv ! i)) (cc ! i)
                            else cc ! i) [0..<length cc]\<rparr>)
      else Inl IndexOutOfRange)"

text \<open>The state that \<open>Render\<close> changes; what it prints is not modelled.\<close>

definition Render :: "BonsaiTree \<Rightarrow> BonsaiTree" where
  "Render bt =
     (let bt1 = (if \<not> initialized bt then bt\<lparr>initialized := True\<rparr> else bt) in
      if \<not> Live (config bt1) then bt1
      else if Message (config bt1) \<noteq> [] \<and> messageOffset bt1 = 0
        then bt1\<lparr>messageOffset := int (length (Message (config bt1)))\<rparr>
      else bt1)"

definition GrowTree :: "nat \<Rightarrow> BonsaiTree \<Rightarrow> (panic + BonsaiTree) option" where
  "GrowTree fuel bt =
     obnd (Some (clear_canvas
             (bt\<lparr>branches := 0, shoots := 0, initialized := False, messageOffset := 0\<rparr>)))
       (\<lambda>bt1.
     let bt2 = (if Live (config bt1) then bt1\<lparr>initialized := True\<rparr> else bt1) in
     obnd (Some (DrawBase bt2)) (\<lambda>bt3.
     let startX = go_div (Width (config bt3)) 2;
         startY = Height (config bt3) + 2 - (if BaseType (config bt3) > 0 then 5 else 0)
     in
     obnd (Branch fuel bt3 startX startY Trunk (LifeStart (config bt3))) (\<lambda>bt4.
     Some (Inr (if \<not> Live (config bt4) then Render bt4 else bt4)))))"

text \<open>One iteration of the main loop: a fresh tree for the terminal size, then its growth.\<close>

definition generate ::
  "(64 word \<Rightarrow> nat \<Rightarrow> nat) \<Rightarrow> Config \<Rightarrow> int \<Rightarrow> int \<Rightarrow> nat \<Rightarrow> (panic + BonsaiTree) option" where
  "generate src cfg width height fuel =
     obnd (Some (NewBonsaiTree src cfg width height)) (GrowTree fuel)"

text \<open>
  \<open>config.Leaves = strings.Split(leavesStr, ",")\<close> for a non-empty flag value:
  the pieces between the commas, empty pieces kept.
\<close>

fun split_commas :: "string \<Rightarrow> string list" where
  "split_commas [] = [[]]"
| "split_commas (c # cs) =
     (if c = CHR '','' then [] # split_commas cs
      else (case split_commas cs of [] \<Rightarrow> [[c]] | piece # pieces \<Rightarrow> (c # piece) # pieces))"

definition parse_leaves :: "string \<Rightarrow> string list \<Rightarrow> string list" where
  "parse_leaves leavesStr leaves = (if leavesStr \<noteq> [] then split_commas leavesStr else leaves)"

section \<open>Notions used by the properties\<close>

text \<open>
  The invariant that \<open>NewBonsaiTree\<close> establishes: the colour grid has the shape of the
  character grid.
\<close>

definition grid_ok :: "BonsaiTree \<Rightarrow> bool" where
  "grid_ok bt \<longleftrightarrow> map length (colorCanvas bt) = map length (canvas bt)"

text \<open>A sequence of \<open>SetPixel\<close> calls, each given as \<open>(x, y, char, color)\<close>.\<close>

fun SetPixels :: "BonsaiTree \<Rightarrow> (int \<times> int \<times> rune \<times> string) list \<Rightarrow> panic + BonsaiTree" where
  "SetPixels bt [] = Inr bt"
| "SetPixels bt ((x, y, char, color) # rest) =
     bnd (SetPixel bt x y char color) (\<lambda>bt1. SetPixels bt1 rest)"

fun SetPixels0 :: "BonsaiTree \<Rightarrow> (int \<times> int \<times> rune \<times> string) list \<Rightarrow> panic + BonsaiTree" where
  "SetPixels0 bt [] = Inr bt"
| "SetPixels0 bt ((x, y, char, color) # rest) =
     bnd (SetPixel0 bt x y char) (\<lambda>bt1. SetPixels0 bt1 rest)"

text \<open>The last call of a sequence that addresses exactly the cell \<open>(x, y)\<close>.\<close>

fun last_write :: "(int \<times> int \<times> rune \<times> string) list \<Rightarrow> int \<Rightarrow> int \<Rightarrow> (rune \<times> string) option" where
  "last_write [] x y = None"
| "last_write ((x', y', char, color) # rest) x y =
     (case last_write rest x y of
        Some w \<Rightarrow> Some w
      | None \<Rightarrow> if x' = x \<and> y' = y then Some (char, color) else None)"

text \<open>The generator of a tree, \<open>n\<close> draws later.\<close>

definition advance :: "BonsaiTree \<Rightarrow> nat \<Rightarrow> BonsaiTree" where
  "advance bt n = bt\<lparr>rng := (rng bt)\<lparr>pos := pos (rng bt) + n\<rparr>\<rparr>"

text \<open>
  What stays fixed while a tree grows: the grids keep matching shapes, and the tree keeps its
  configuration \<open>cfg\<close> and the raw sequence \<open>d\<close> of its generator.
\<close>

definition tree_inv :: "Config \<Rightarrow> (nat \<Rightarrow> nat) \<Rightarrow> BonsaiTree \<Rightarrow> bool" where
  "tree_inv cfg d bt \<longleftrightarrow> grid_ok bt \<and> config bt = cfg \<and> draws (rng bt) = d"



text \<open>
  The part of the configuration that the growth of the character grid reads: life,
  multiplier, base type, leaves, colours, and the dimensions.
\<close>

definition relevant :: "Config \<Rightarrow> int \<times> int \<times> int \<times> string list \<times> bool \<times> int \<times> int" where
  "relevant cfg =
     (LifeStart cfg, Multiplier cfg, BaseType cfg, Leaves cfg, UseColors cfg, Width cfg,
      Height cfg)"

text \<open>
  Two trees in step: the same characters, generator and shoot count, configurations that
  agree on the relevant part, and well-formed grids.
\<close>

definition same_grid :: "BonsaiTree \<Rightarrow> BonsaiTree \<Rightarrow> bool" where
  "same_grid bt1 bt2 \<longleftrightarrow>
     canvas bt1 = canvas bt2 \<and> rng bt1 = rng bt2 \<and> shoots bt1 = shoots bt2 \<and>
     relevant (config bt1) = relevant (config bt2) \<and> grid_ok bt1 \<and> grid_ok bt2"

text \<open>
  Concrete inputs: the defaults of \<open>main\<close> (life 32, multiplier 5, the five leaves) on a
  terminal of 12 by 10 cells, without pot and colours, and the tree \<open>NewBonsaiTree\<close>
  builds for a configuration and a generator whose raw values are \<open>d\<close>.
\<close>

definition demo_config :: Config where
  "demo_config =
     \<lparr>Live = False, Infinite = False, PrintTree = True, LifeStart = 32, Multiplier = 5,
      BaseType = 0, Seed = 42, Message = [], Leaves = [''&'', ''*'', ''o'', ''@'', ''%''],
      Width = 12, Height = 10, UseColors = False\<rparr>"

definition blank_tree :: "Config \<Rightarrow> (nat \<Rightarrow> nat) \<Rightarrow> BonsaiTree" where
  "blank_tree cfg d =
     \<lparr>canvas = replicate (nat (Height cfg)) (replicate (nat (Width cfg)) CHR '' ''),
      colorCanvas = replicate (nat (Height cfg)) (replicate (nat (Width cfg)) []),
      config = cfg, branches = 0, shoots = 0, rng = \<lparr>draws = d, pos = 0\<rparr>,
      initialized = False, messageOffset = 0\<rparr>"

section \<open>Basic facts\<close>

lemma bnd_Inr [simp]: "bnd (Inr v) f = f v"
  by (simp add: bnd_def)

lemma bnd_Inl [simp]: "bnd (Inl e) f = Inl e"
  by (simp add: bnd_def)

lemma obnd_simps [simp]:
  "obnd None f = None"
  "obnd (Some (Inl e)) f = Some (Inl e)"
  "obnd (Some (Inr v)) f = f v"
  by (simp_all add: obnd_def)

lemma roll_pos:
  "0 < n \<Longrightarrow> roll bt n =
     Inr (int (draws (rng bt) (pos (rng bt))) mod n, bt\<lparr>rng := (rng bt)\<lparr>pos := pos (rng bt) + 1\<rparr>\<rparr>)"
  by (simp add: roll_def Intn_def)

section \<open>Glyph table\<close>

text \<open>
  C6, amended. The glyph table is about the glyph-selection kind, which is the branch kind
  only while the remaining life is at least 4: with \<open>4 \<le> life\<close>, a trunk step with \<open>dy = 0\<close>
  is drawn \<open>~\<close> whatever \<open>dx\<close> is, and a left shoot moving down (\<open>dy > 0\<close>) is
  drawn as a backslash; the generator is not touched.
\<close>

theorem ChooseChar_glyph_table:
  assumes "4 \<le> life"
  shows "ChooseChar bt Trunk life dx 0 = Inr (CHR ''~'', bt)
    \<and> (0 < dy \<longrightarrow> ChooseChar bt ShootLeft life dx dy = Inr (backslash, bt))"
  using assms by (simp add: ChooseChar_def)

theorem ChooseChar_glyph_table_witness:
  "ChooseChar (blank_tree demo_config (\<lambda>i. 0)) Trunk 4 2 0
      = Inr (CHR ''~'', blank_tree demo_config (\<lambda>i. 0))
   \<and> ChooseChar (blank_tree demo_config (\<lambda>i. 0)) ShootLeft 4 2 1
      = Inr (CHR 0x5C, blank_tree demo_config (\<lambda>i. 0))"
  using ChooseChar_glyph_table [of 4 "blank_tree demo_config (\<lambda>i. 0)" 2 1]
  by (simp add: backslash_def)

text \<open>
  C6 as stated (every remaining life) fails: with remaining life 3 the kind is overridden
  to \<open>Dying\<close>, and a trunk step with \<open>dy = 0\<close> is drawn as a leaf, here \<open>&\<close>.
\<close>

theorem ChooseChar_trunk_low_life_counterexample:
  "map_sum id fst (ChooseChar (blank_tree demo_config (\<lambda>i. 0)) Trunk 3 0 0) = Inr CHR ''&''"
  by (simp add: ChooseChar_def leaf_glyph_def roll_pos index_at_def blank_tree_def
      demo_config_def)

section \<open>Shoot deltas\<close>







section \<open>Age\<close>

text \<open>
  C8, amended. In the \<open>k\<close>-th iteration of a branch created with life \<open>life0\<close> the
  remaining life is \<open>life0 - k\<close>, and the age computed from it is measured from the
  configured \<open>LifeStart\<close>: it is \<open>k + (LifeStart - life0)\<close>. It is the number of steps
  of this branch exactly when the branch was created with \<open>LifeStart\<close>, as the trunk that
  \<open>GrowTree\<close> starts is. The iteration hands this age to \<open>GetDeltas\<close> and to the lift.
\<close>

theorem age_counts_from_LifeStart:
  "age_of cfg (life0 - k) = k + (LifeStart cfg - life0)
   \<and> (age_of cfg (life0 - k) = k) = (life0 = LifeStart cfg)
   \<and> decide bt y kind life cd =
       bnd (GetDeltas bt kind life (LifeStart (config bt) - life)) (\<lambda>(dx, dy0, bt1).
       bnd (spawn bt1 kind life cd) (\<lambda>(bt2, cd', child).
       Inr (dx, adjust_dy (config bt1) y (LifeStart (config bt) - life) dy0, cd', child, bt2)))"
  by (auto simp add: age_of_def decide_def Let_def)

text \<open>
  C8 as stated fails for a child branch: with \<open>LifeStart = 32\<close> and multiplier 5, a shoot
  spawned by the trunk at remaining life 20 starts with life 25; in its first iteration
  (remaining life 24) the computed age is 8, not 1. The difference shows in the deltas: a
  forked trunk created with life 20 takes its first step (remaining life 19) at age 13, in
  the growth phase, where a dice of 0 gives \<open>dx = -2\<close>; at age 1 a trunk only moves by
  \<open>Intn(3) - 1\<close>.
\<close>

theorem age_of_shoot_counterexample:
  "age_of demo_config (25 - 1) = 8 \<and> age_of demo_config (25 - 1) \<noteq> 25 - (25 - 1)
   \<and> map_sum id fst (decide (blank_tree demo_config (\<lambda>i. 0)) 5 Trunk (20 - 1) 5) = Inr (-2)"
proof -
  have "map_sum id fst (decide (blank_tree demo_config (\<lambda>i. 0)) 5 Trunk (20 - 1) 5) = Inr (-2)"
    by code_simp
  then show ?thesis
    by (simp add: age_of_def demo_config_def)
qed

section \<open>Leaf glyphs\<close>

lemma ChooseChar_leaf:
  "life < 4 \<or> kind = Dying \<or> kind = Dead \<Longrightarrow> ChooseChar bt kind life dx dy = leaf_glyph bt"
  by (auto simp add: ChooseChar_def)

lemma leaf_glyph_empty: "Leaves (config bt) = [] \<Longrightarrow> leaf_glyph bt = Inr (CHR ''&'', bt)"
  by (simp add: leaf_glyph_def)

lemma leaf_glyph_nonempty:
  assumes "Leaves (config bt) \<noteq> []"
  shows "leaf_glyph bt =
     (case Leaves (config bt) ! (draws (rng bt) (pos (rng bt)) mod length (Leaves (config bt))) of
        [] \<Rightarrow> Inl IndexOutOfRange
      | b # rest \<Rightarrow> Inr (b, bt\<lparr>rng := (rng bt)\<lparr>pos := pos (rng bt) + 1\<rparr>\<rparr>))"
proof -
  let ?L = "Leaves (config bt)"
  let ?d = "draws (rng bt) (pos (rng bt))"
  from assms have len: "0 < length ?L" by simp
  have idx: "int ?d mod int (length ?L) = int (?d mod length ?L)"
    by (simp add: zmod_int)
  have lt: "?d mod length ?L < length ?L"
    using len by simp
  show ?thesis
    using len lt
    by (simp add: leaf_glyph_def roll_pos idx index_at_def split: list.split)
qed

text \<open>
  C9, amended. The glyph-selection kind is \<open>Dying\<close> whenever the remaining life is
  below 4, and the kind of the branch otherwise. When it is \<open>Dying\<close> or \<open>Dead\<close>
  (a remaining life below 4, or a branch of kind \<open>Dying\<close> or \<open>Dead\<close>), the result of
  \<open>ChooseChar\<close> does not depend on \<open>dx\<close> and \<open>dy\<close>; with an empty leaves list it
  is \<open>&\<close> and the generator is untouched; otherwise one \<open>Intn(len(Leaves))\<close> selects
  the leaf whose index is the raw value modulo the length of the list, and when that leaf is
  a non-empty string the glyph is its first byte.
\<close>

theorem leaf_glyph_selection:
  assumes "life < 4 \<or> kind = Dying \<or> kind = Dead"
  shows "ChooseChar bt kind life dx dy = ChooseChar bt kind life dx' dy'
    \<and> (Leaves (config bt) = [] \<longrightarrow> ChooseChar bt kind life dx dy = Inr (CHR ''&'', bt))
    \<and> (Leaves (config bt) \<noteq> [] \<longrightarrow>
         (\<forall>b rest.
            Leaves (config bt) ! (draws (rng bt) (pos (rng bt)) mod length (Leaves (config bt)))
              = b # rest \<longrightarrow>
            ChooseChar bt kind life dx dy =
              Inr (b, bt\<lparr>rng := (rng bt)\<lparr>pos := pos (rng bt) + 1\<rparr>\<rparr>)))"
proof -
  have cc: "\<And>u v. ChooseChar bt kind life u v = leaf_glyph bt"
    using assms by (rule ChooseChar_leaf)
  show ?thesis
    by (simp add: cc leaf_glyph_empty leaf_glyph_nonempty)
qed

theorem leaf_glyph_selection_witness:
  "ChooseChar (blank_tree demo_config (\<lambda>i. 7)) Dying 9 1 0
     = ChooseChar (blank_tree demo_config (\<lambda>i. 7)) Dying 9 (-3) 1
   \<and> map_sum id fst (ChooseChar (blank_tree demo_config (\<lambda>i. 7)) Dying 9 1 0) = Inr CHR ''o''
   \<and> map_sum id fst (ChooseChar (blank_tree demo_config (\<lambda>i. 7)) Trunk 3 1 0) = Inr CHR ''o''
   \<and> ChooseChar (blank_tree (demo_config\<lparr>Leaves := []\<rparr>) (\<lambda>i. 7)) Dead 9 1 0
     = Inr (CHR ''&'', blank_tree (demo_config\<lparr>Leaves := []\<rparr>) (\<lambda>i. 7))"
proof -
  let ?bt = "blank_tree demo_config (\<lambda>i. 7)"
  let ?empty = "blank_tree (demo_config\<lparr>Leaves := []\<rparr>) (\<lambda>i. 7)"
  have ne: "Leaves (config ?bt) \<noteq> []"
    by (simp add: blank_tree_def demo_config_def)
  have sel: "Leaves (config ?bt) ! (draws (rng ?bt) (pos (rng ?bt)) mod length (Leaves (config ?bt)))
      = CHR ''o'' # []"
    by (simp add: blank_tree_def demo_config_def)
  have e: "Leaves (config ?empty) = []"
    by (simp add: blank_tree_def)
  have low: "(3::int) < 4 \<or> Trunk = Dying \<or> Trunk = Dead"
    by simp
  note dying = leaf_glyph_selection [of 9 Dying ?bt 1 0 "-3" 1]
  note trunk = leaf_glyph_selection [OF low, of ?bt 1 0 1 0]
  note dead = leaf_glyph_selection [of 9 Dead ?empty 1 0 1 0]
  have a: "ChooseChar ?bt Dying 9 1 0 = ChooseChar ?bt Dying 9 (-3) 1"
    using dying by blast
  have b: "ChooseChar ?bt Dying 9 1 0 =
      Inr (CHR ''o'', ?bt\<lparr>rng := (rng ?bt)\<lparr>pos := pos (rng ?bt) + 1\<rparr>\<rparr>)"
    using dying ne sel by blast
  have t: "ChooseChar ?bt Trunk 3 1 0 =
      Inr (CHR ''o'', ?bt\<lparr>rng := (rng ?bt)\<lparr>pos := pos (rng ?bt) + 1\<rparr>\<rparr>)"
    using trunk ne sel by blast
  have c: "ChooseChar ?empty Dead 9 1 0 = Inr (CHR ''&'', ?empty)"
    using dead e by blast
  from b have b': "map_sum id fst (ChooseChar ?bt Dying 9 1 0) = Inr CHR ''o''"
    by simp
  from t have t': "map_sum id fst (ChooseChar ?bt Trunk 3 1 0) = Inr CHR ''o''"
    by simp
  from a b' t' c show ?thesis by blast
qed

text \<open>
  C9 as stated fails when a configured leaf is longer than one byte: with the single leaf
  \<open>ab\<close> the glyph is \<open>a\<close>, which is not a member of the leaves list.
\<close>

theorem leaf_glyph_truncated_counterexample:
  "map_sum id fst (ChooseChar (blank_tree (demo_config\<lparr>Leaves := [''ab'']\<rparr>) (\<lambda>i. 0)) Dying 9 0 0)
     = Inr CHR ''a''
   \<and> [CHR ''a''] \<notin> set (Leaves (demo_config\<lparr>Leaves := [''ab'']\<rparr>))"
  by (simp add: ChooseChar_def leaf_glyph_def roll_pos index_at_def blank_tree_def
      demo_config_def)

text \<open>
  C10. When the glyph-selection kind is \<open>Dying\<close> or \<open>Dead\<close> (a remaining life below
  4, or a branch of one of these kinds) and the leaves list is not empty: the glyph is the
  first byte of the selected leaf whenever that leaf is a non-empty string, and nothing
  else of the leaf is used, so cutting every leaf down to its first byte changes no glyph;
  the selection succeeds for every state of the generator exactly when no configured leaf
  is the empty string; a selected empty leaf makes \<open>leaf[0]\<close> an index out of range; and
  the value \<open>&,,*\<close> of the \<open>--leaf\<close> flag is split into a list with an empty leaf.
\<close>

theorem leaf_first_byte_precondition:
  assumes "life < 4 \<or> kind = Dying \<or> kind = Dead"
  shows "(Leaves (config bt) \<noteq> [] \<and>
         Leaves (config bt) ! (draws (rng bt) (pos (rng bt)) mod length (Leaves (config bt))) \<noteq> []
         \<longrightarrow> ChooseChar bt kind life dx dy =
               Inr (hd (Leaves (config bt) !
                      (draws (rng bt) (pos (rng bt)) mod length (Leaves (config bt)))),
                    bt\<lparr>rng := (rng bt)\<lparr>pos := pos (rng bt) + 1\<rparr>\<rparr>))
    \<and> (\<forall>d p. \<exists>r. ChooseChar (bt\<lparr>rng := \<lparr>draws = d, pos = p\<rparr>\<rparr>) kind life dx dy = Inr r)
           = (\<forall>leaf \<in> set (Leaves (config bt)). leaf \<noteq> [])
    \<and> ((\<forall>leaf \<in> set (Leaves (config bt)). leaf \<noteq> []) \<longrightarrow>
          map_sum id fst (ChooseChar bt kind life dx dy) =
          map_sum id fst
            (ChooseChar (bt\<lparr>config := (config bt)\<lparr>Leaves :=
                           map (\<lambda>leaf. [hd leaf]) (Leaves (config bt))\<rparr>\<rparr>) kind life dx dy))
    \<and> (Leaves (config bt) \<noteq> [] \<and>
         Leaves (config bt) ! (draws (rng bt) (pos (rng bt)) mod length (Leaves (config bt))) = []
         \<longrightarrow> ChooseChar bt kind life dx dy = Inl IndexOutOfRange)
    \<and> parse_leaves ''&,,*'' dflt = [''&'', [], ''*'']"
proof -
  let ?L = "Leaves (config bt)"
  have cc: "\<And>b. ChooseChar b kind life dx dy = leaf_glyph b"
    using assms by (rule ChooseChar_leaf)
  have iff: "(\<forall>d p. \<exists>r. leaf_glyph (bt\<lparr>rng := \<lparr>draws = d, pos = p\<rparr>\<rparr>) = Inr r)
      = (\<forall>leaf \<in> set ?L. leaf \<noteq> [])"
  proof
    assume ok: "\<forall>d p. \<exists>r. leaf_glyph (bt\<lparr>rng := \<lparr>draws = d, pos = p\<rparr>\<rparr>) = Inr r"
    show "\<forall>leaf \<in> set ?L. leaf \<noteq> []"
    proof
      fix leaf assume "leaf \<in> set ?L"
      then obtain i where i: "i < length ?L" "?L ! i = leaf"
        by (auto simp add: in_set_conv_nth)
      then have ne: "?L \<noteq> []" by auto
      let ?b = "bt\<lparr>rng := \<lparr>draws = \<lambda>k. i, pos = 0\<rparr>\<rparr>"
      from ok obtain r where r: "leaf_glyph ?b = Inr r" by blast
      have "leaf_glyph ?b =
          (case ?L ! i of [] \<Rightarrow> Inl IndexOutOfRange
           | b # rest \<Rightarrow> Inr (b, ?b\<lparr>rng := (rng ?b)\<lparr>pos := pos (rng ?b) + 1\<rparr>\<rparr>))"
        using leaf_glyph_nonempty [of ?b] ne i(1) by simp
      with r i(2) show "leaf \<noteq> []" by (auto split: list.splits)
    qed
  next
    assume all: "\<forall>leaf \<in> set ?L. leaf \<noteq> []"
    show "\<forall>d p. \<exists>r. leaf_glyph (bt\<lparr>rng := \<lparr>draws = d, pos = p\<rparr>\<rparr>) = Inr r"
    proof (intro allI)
      fix d p
      let ?b = "bt\<lparr>rng := \<lparr>draws = d, pos = p\<rparr>\<rparr>"
      show "\<exists>r. leaf_glyph ?b = Inr r"
      proof (cases "?L = []")
        case True
        then show ?thesis by (simp add: leaf_glyph_empty)
      next
        case False
        then have "d p mod length ?L < length ?L" by simp
        then have "?L ! (d p mod length ?L) \<in> set ?L" by (rule nth_mem)
        with all have "?L ! (d p mod length ?L) \<noteq> []" by blast
        then show ?thesis
          using leaf_glyph_nonempty [of ?b] False by (auto split: list.splits)
      qed
    qed
  qed
  have trunc: "(\<forall>leaf \<in> set ?L. leaf \<noteq> []) \<longrightarrow>
      map_sum id fst (leaf_glyph bt) =
      map_sum id fst (leaf_glyph (bt\<lparr>config := (config bt)\<lparr>Leaves := map (\<lambda>leaf. [hd leaf]) ?L\<rparr>\<rparr>))"
  proof
    assume all: "\<forall>leaf \<in> set ?L. leaf \<noteq> []"
    let ?b = "bt\<lparr>config := (config bt)\<lparr>Leaves := map (\<lambda>leaf. [hd leaf]) ?L\<rparr>\<rparr>"
    show "map_sum id fst (leaf_glyph bt) = map_sum id fst (leaf_glyph ?b)"
    proof (cases "?L = []")
      case True
      then show ?thesis by (simp add: leaf_glyph_empty)
    next
      case False
      let ?i = "draws (rng bt) (pos (rng bt)) mod length ?L"
      from False have lt: "?i < length ?L" by simp
      then have "?L ! ?i \<in> set ?L" by (rule nth_mem)
      with all obtain b rest where sel: "?L ! ?i = b # rest"
        by (cases "?L ! ?i") auto
      have one: "leaf_glyph bt = Inr (b, bt\<lparr>rng := (rng bt)\<lparr>pos := pos (rng bt) + 1\<rparr>\<rparr>)"
        using leaf_glyph_nonempty [of bt] False sel by simp
      have two: "leaf_glyph ?b = Inr (b, ?b\<lparr>rng := (rng ?b)\<lparr>pos := pos (rng ?b) + 1\<rparr>\<rparr>)"
        using leaf_glyph_nonempty [of ?b] False sel lt by simp
      from one two show ?thesis by simp
    qed
  qed
  have oob: "?L \<noteq> [] \<and> ?L ! (draws (rng bt) (pos (rng bt)) mod length ?L) = []
      \<longrightarrow> leaf_glyph bt = Inl IndexOutOfRange"
    using leaf_glyph_nonempty [of bt] by auto
  have first: "?L \<noteq> [] \<and> ?L ! (draws (rng bt) (pos (rng bt)) mod length ?L) \<noteq> []
      \<longrightarrow> leaf_glyph bt =
            Inr (hd (?L ! (draws (rng bt) (pos (rng bt)) mod length ?L)),
                 bt\<lparr>rng := (rng bt)\<lparr>pos := pos (rng bt) + 1\<rparr>\<rparr>)"
    using leaf_glyph_nonempty [of bt] by (auto split: list.splits)
  have split: "parse_leaves ''&,,*'' dflt = [''&'', [], ''*'']"
    by (simp add: parse_leaves_def)
  from first iff trunc oob split show ?thesis
    by (simp only: cc)
qed

theorem leaf_first_byte_precondition_witness:
  "map_sum id fst
     (ChooseChar (blank_tree (demo_config\<lparr>Leaves := [''ab'', ''cd'']\<rparr>) (\<lambda>i. 1)) Dying 9 0 0)
   = Inr CHR ''c''
   \<and> map_sum id fst
     (ChooseChar (blank_tree (demo_config\<lparr>Leaves := [''ab'', ''cd'']\<rparr>) (\<lambda>i. 1)) ShootLeft 2 0 0)
   = Inr CHR ''c''
   \<and> map_sum id fst
     (ChooseChar (blank_tree (demo_config\<lparr>Leaves := [''ab'', ''cd'']\<rparr>) (\<lambda>i. 1)) Dying 9 0 0)
   = map_sum id fst
     (ChooseChar (blank_tree (demo_config\<lparr>Leaves := [''a'', ''c'']\<rparr>) (\<lambda>i. 1)) Dying 9 0 0)
   \<and> ChooseChar (blank_tree (demo_config\<lparr>Leaves := parse_leaves ''&,,*'' []\<rparr>) (\<lambda>i. 1)) Dead 9 0 0
     = Inl IndexOutOfRange"
proof -
  let ?long = "blank_tree (demo_config\<lparr>Leaves := [''ab'', ''cd'']\<rparr>) (\<lambda>i. 1)"
  let ?gap = "blank_tree (demo_config\<lparr>Leaves := parse_leaves ''&,,*'' []\<rparr>) (\<lambda>i. 1)"
  have all: "\<forall>leaf \<in> set (Leaves (config ?long)). leaf \<noteq> []"
    by (simp add: blank_tree_def)
  have pick: "Leaves (config ?long) \<noteq> [] \<and>
      Leaves (config ?long) !
        (draws (rng ?long) (pos (rng ?long)) mod length (Leaves (config ?long))) \<noteq> []"
    by (simp add: blank_tree_def)
  have byte: "hd (Leaves (config ?long) !
        (draws (rng ?long) (pos (rng ?long)) mod length (Leaves (config ?long)))) = CHR ''c''"
    by (simp add: blank_tree_def)
  have cut: "?long\<lparr>config := (config ?long)\<lparr>Leaves :=
        map (\<lambda>leaf. [hd leaf]) (Leaves (config ?long))\<rparr>\<rparr>
      = blank_tree (demo_config\<lparr>Leaves := [''a'', ''c'']\<rparr>) (\<lambda>i. 1)"
    by (simp add: blank_tree_def)
  have low: "(2::int) < 4 \<or> ShootLeft = Dying \<or> ShootLeft = Dead"
    by simp
  note dying = leaf_first_byte_precondition [of 9 Dying ?long 0 0 "[]"]
  note shoot = leaf_first_byte_precondition [OF low, of ?long 0 0 "[]"]
  have g: "ChooseChar ?long Dying 9 0 0 =
      Inr (hd (Leaves (config ?long) !
             (draws (rng ?long) (pos (rng ?long)) mod length (Leaves (config ?long)))),
           ?long\<lparr>rng := (rng ?long)\<lparr>pos := pos (rng ?long) + 1\<rparr>\<rparr>)"
    using dying pick by blast
  then have g': "map_sum id fst (ChooseChar ?long Dying 9 0 0) = Inr CHR ''c''"
    by (simp only: byte) simp
  have h: "ChooseChar ?long ShootLeft 2 0 0 =
      Inr (hd (Leaves (config ?long) !
             (draws (rng ?long) (pos (rng ?long)) mod length (Leaves (config ?long)))),
           ?long\<lparr>rng := (rng ?long)\<lparr>pos := pos (rng ?long) + 1\<rparr>\<rparr>)"
    using shoot pick by blast
  then have h': "map_sum id fst (ChooseChar ?long ShootLeft 2 0 0) = Inr CHR ''c''"
    by (simp only: byte) simp
  have a: "map_sum id fst (ChooseChar ?long Dying 9 0 0) =
      map_sum id fst (ChooseChar (?long\<lparr>config := (config ?long)\<lparr>Leaves :=
        map (\<lambda>leaf. [hd leaf]) (Leaves (config ?long))\<rparr>\<rparr>) Dying 9 0 0)"
    using dying all by blast
  have sel: "Leaves (config ?gap) \<noteq> [] \<and>
      Leaves (config ?gap) ! (draws (rng ?gap) (pos (rng ?gap)) mod length (Leaves (config ?gap))) = []"
    by (simp add: blank_tree_def parse_leaves_def)
  have b: "ChooseChar ?gap Dead 9 0 0 = Inl IndexOutOfRange"
    using leaf_first_byte_precondition [of 9 Dead ?gap 0 0 "[]"] sel by blast
  from a have a': "map_sum id fst (ChooseChar ?long Dying 9 0 0) =
      map_sum id fst
        (ChooseChar (blank_tree (demo_config\<lparr>Leaves := [''a'', ''c'']\<rparr>) (\<lambda>i. 1)) Dying 9 0 0)"
    by (simp only: cut)
  from g' h' a' b show ?thesis by blast
qed

section \<open>Canvas bounds\<close>

lemma in_bounds_shape:
  "in_bounds cv x y \<longleftrightarrow>
     0 \<le> y \<and> nat y < length cv \<and> 0 \<le> x \<and> nat x < map length cv ! nat y"
  by (auto simp add: in_bounds_def)

lemma in_bounds_cong_shape:
  "map length cv' = map length cv \<Longrightarrow> in_bounds cv' x y = in_bounds cv x y"
  by (simp add: in_bounds_shape) (metis length_map)

lemma shape_update:
  "map length (g[i := (g ! i)[j := v]]) = map length g"
  by (cases "i < length g") (simp_all add: map_update list_update_same_conv list_update_beyond)

lemma set_cell_ok:
  "0 \<le> y \<Longrightarrow> nat y < length g \<Longrightarrow> 0 \<le> x \<Longrightarrow> nat x < length (g ! nat y) \<Longrightarrow>
   set_cell g x y v = Inr (g[nat y := (g ! nat y)[nat x := v]])"
  by (auto simp add: set_cell_def)

lemma cell_update:
  "i < length g \<Longrightarrow> i' < length g \<Longrightarrow>
   g[i := (g ! i)[j := v]] ! i' ! j' =
     (if i' = i \<and> j' = j \<and> j < length (g ! i) then v else g ! i' ! j')"
  by (auto simp add: nth_list_update list_update_beyond)

lemma SetPixel_out: "\<not> in_bounds (canvas bt) x y \<Longrightarrow> SetPixel bt x y char color = Inr bt"
  by (simp add: SetPixel_def)

lemma SetPixel_in:
  assumes "grid_ok bt" "in_bounds (canvas bt) x y"
  shows "SetPixel bt x y char color =
     Inr (bt\<lparr>canvas := (canvas bt)[nat y := (canvas bt ! nat y)[nat x := char]],
             colorCanvas := (colorCanvas bt)[nat y := (colorCanvas bt ! nat y)[nat x := color]]\<rparr>)"
proof -
  from assms(2) have b: "0 \<le> y" "nat y < length (canvas bt)" "0 \<le> x"
      "nat x < length (canvas bt ! nat y)"
    by (auto simp add: in_bounds_def)
  from assms(1) have len: "length (colorCanvas bt) = length (canvas bt)"
    unfolding grid_ok_def by (metis length_map)
  from assms(1) b(2) len have row: "length (colorCanvas bt ! nat y) = length (canvas bt ! nat y)"
    unfolding grid_ok_def by (metis nth_map)
  from b len row show ?thesis
    by (simp add: SetPixel_def assms(2) set_cell_ok)
qed

lemma SetPixel_total:
  assumes "grid_ok bt"
  shows "\<exists>cv cc. SetPixel bt x y char color = Inr (bt\<lparr>canvas := cv, colorCanvas := cc\<rparr>)
    \<and> map length cv = map length (canvas bt) \<and> map length cc = map length (colorCanvas bt)
    \<and> (\<forall>x' y'. in_bounds (canvas bt) x' y' \<longrightarrow>
          cv ! nat y' ! nat x' =
            (if x' = x \<and> y' = y then char else canvas bt ! nat y' ! nat x')
        \<and> cc ! nat y' ! nat x' =
            (if x' = x \<and> y' = y then color else colorCanvas bt ! nat y' ! nat x'))"
proof (cases "in_bounds (canvas bt) x y")
  case False
  have "SetPixel bt x y char color = Inr (bt\<lparr>canvas := canvas bt, colorCanvas := colorCanvas bt\<rparr>)"
    using False by (simp add: SetPixel_out)
  moreover have "\<forall>x' y'. in_bounds (canvas bt) x' y' \<longrightarrow>
          canvas bt ! nat y' ! nat x' =
            (if x' = x \<and> y' = y then char else canvas bt ! nat y' ! nat x')
        \<and> colorCanvas bt ! nat y' ! nat x' =
            (if x' = x \<and> y' = y then color else colorCanvas bt ! nat y' ! nat x')"
    using False by auto
  ultimately show ?thesis by blast
next
  case True
  let ?cv = "(canvas bt)[nat y := (canvas bt ! nat y)[nat x := char]]"
  let ?cc = "(colorCanvas bt)[nat y := (colorCanvas bt ! nat y)[nat x := color]]"
  from True have b: "0 \<le> y" "nat y < length (canvas bt)" "0 \<le> x"
      "nat x < length (canvas bt ! nat y)"
    by (auto simp add: in_bounds_def)
  from assms have len: "length (colorCanvas bt) = length (canvas bt)"
    unfolding grid_ok_def by (metis length_map)
  from assms b(2) len have row: "length (colorCanvas bt ! nat y) = length (canvas bt ! nat y)"
    unfolding grid_ok_def by (metis nth_map)
  have cells: "\<forall>x' y'. in_bounds (canvas bt) x' y' \<longrightarrow>
          ?cv ! nat y' ! nat x' =
            (if x' = x \<and> y' = y then char else canvas bt ! nat y' ! nat x')
        \<and> ?cc ! nat y' ! nat x' =
            (if x' = x \<and> y' = y then color else colorCanvas bt ! nat y' ! nat x')"
  proof (intro allI impI)
    fix x' y' assume "in_bounds (canvas bt) x' y'"
    then have b': "0 \<le> y'" "nat y' < length (canvas bt)" "0 \<le> x'"
      by (auto simp add: in_bounds_def)
    have eq: "(nat y' = nat y \<and> nat x' = nat x) = (x' = x \<and> y' = y)"
      using b b' by auto
    show "?cv ! nat y' ! nat x' =
            (if x' = x \<and> y' = y then char else canvas bt ! nat y' ! nat x')
        \<and> ?cc ! nat y' ! nat x' =
            (if x' = x \<and> y' = y then color else colorCanvas bt ! nat y' ! nat x')"
      using b b' len row eq by (simp add: cell_update)
  qed
  have "SetPixel bt x y char color = Inr (bt\<lparr>canvas := ?cv, colorCanvas := ?cc\<rparr>)"
    using assms True by (rule SetPixel_in)
  with cells show ?thesis
    by (intro exI [of _ ?cv] exI [of _ ?cc]) (simp add: shape_update)
qed

lemma SetPixel0_total:
  "\<exists>cv. SetPixel0 bt x y char = Inr (bt\<lparr>canvas := cv\<rparr>)
    \<and> map length cv = map length (canvas bt)
    \<and> (\<forall>x' y'. in_bounds (canvas bt) x' y' \<longrightarrow>
          cv ! nat y' ! nat x' =
            (if x' = x \<and> y' = y then char else canvas bt ! nat y' ! nat x'))"
proof (cases "in_bounds (canvas bt) x y")
  case False
  have "SetPixel0 bt x y char = Inr (bt\<lparr>canvas := canvas bt\<rparr>)"
    using False by (simp add: SetPixel0_def)
  moreover have "\<forall>x' y'. in_bounds (canvas bt) x' y' \<longrightarrow>
          canvas bt ! nat y' ! nat x' =
            (if x' = x \<and> y' = y then char else canvas bt ! nat y' ! nat x')"
    using False by auto
  ultimately show ?thesis by blast
next
  case True
  let ?cv = "(canvas bt)[nat y := (canvas bt ! nat y)[nat x := char]]"
  from True have b: "0 \<le> y" "nat y < length (canvas bt)" "0 \<le> x"
      "nat x < length (canvas bt ! nat y)"
    by (auto simp add: in_bounds_def)
  have cells: "\<forall>x' y'. in_bounds (canvas bt) x' y' \<longrightarrow>
          ?cv ! nat y' ! nat x' =
            (if x' = x \<and> y' = y then char else canvas bt ! nat y' ! nat x')"
  proof (intro allI impI)
    fix x' y' assume "in_bounds (canvas bt) x' y'"
    then have b': "0 \<le> y'" "nat y' < length (canvas bt)" "0 \<le> x'"
      by (auto simp add: in_bounds_def)
    have eq: "(nat y' = nat y \<and> nat x' = nat x) = (x' = x \<and> y' = y)"
      using b b' by auto
    show "?cv ! nat y' ! nat x' =
            (if x' = x \<and> y' = y then char else canvas bt ! nat y' ! nat x')"
      using b b' eq by (simp add: cell_update)
  qed
  have "SetPixel0 bt x y char = Inr (bt\<lparr>canvas := ?cv\<rparr>)"
    using True b by (simp add: SetPixel0_def set_cell_ok)
  with cells show ?thesis
    by (intro exI [of _ ?cv]) (simp add: shape_update)
qed

lemma SetPixels_total:
  assumes "grid_ok bt"
  shows "\<exists>cv cc. SetPixels bt calls = Inr (bt\<lparr>canvas := cv, colorCanvas := cc\<rparr>)
    \<and> map length cv = map length (canvas bt) \<and> map length cc = map length (colorCanvas bt)
    \<and> (\<forall>x y. in_bounds (canvas bt) x y \<longrightarrow>
          cv ! nat y ! nat x =
            (case last_write calls x y of
               None \<Rightarrow> canvas bt ! nat y ! nat x | Some (char, color) \<Rightarrow> char)
        \<and> cc ! nat y ! nat x =
            (case last_write calls x y of
               None \<Rightarrow> colorCanvas bt ! nat y ! nat x | Some (char, color) \<Rightarrow> color))"
  using assms
proof (induction calls arbitrary: bt)
  case Nil
  have "SetPixels bt [] = Inr (bt\<lparr>canvas := canvas bt, colorCanvas := colorCanvas bt\<rparr>)"
    by simp
  then show ?case by (intro exI [of _ "canvas bt"] exI [of _ "colorCanvas bt"]) simp
next
  case (Cons call rest)
  obtain x y char color where call: "call = (x, y, char, color)"
    by (cases call) auto
  from SetPixel_total [OF Cons.prems, of x y char color]
  obtain cv1 cc1 where
    s1: "SetPixel bt x y char color = Inr (bt\<lparr>canvas := cv1, colorCanvas := cc1\<rparr>)" and
    sh1: "map length cv1 = map length (canvas bt)" "map length cc1 = map length (colorCanvas bt)" and
    c1: "\<forall>x' y'. in_bounds (canvas bt) x' y' \<longrightarrow>
          cv1 ! nat y' ! nat x' =
            (if x' = x \<and> y' = y then char else canvas bt ! nat y' ! nat x')
        \<and> cc1 ! nat y' ! nat x' =
            (if x' = x \<and> y' = y then color else colorCanvas bt ! nat y' ! nat x')"
    by blast
  let ?bt1 = "bt\<lparr>canvas := cv1, colorCanvas := cc1\<rparr>"
  have ok1: "grid_ok ?bt1"
    using Cons.prems sh1 by (simp add: grid_ok_def)
  from Cons.IH [OF ok1]
  obtain cv2 cc2 where
    s2: "SetPixels ?bt1 rest = Inr (?bt1\<lparr>canvas := cv2, colorCanvas := cc2\<rparr>)" and
    sh2: "map length cv2 = map length (canvas ?bt1)"
         "map length cc2 = map length (colorCanvas ?bt1)" and
    c2: "\<forall>x' y'. in_bounds (canvas ?bt1) x' y' \<longrightarrow>
          cv2 ! nat y' ! nat x' =
            (case last_write rest x' y' of
               None \<Rightarrow> canvas ?bt1 ! nat y' ! nat x' | Some (ch, co) \<Rightarrow> ch)
        \<and> cc2 ! nat y' ! nat x' =
            (case last_write rest x' y' of
               None \<Rightarrow> colorCanvas ?bt1 ! nat y' ! nat x' | Some (ch, co) \<Rightarrow> co)"
    by blast
  have run: "SetPixels bt (call # rest) = Inr (bt\<lparr>canvas := cv2, colorCanvas := cc2\<rparr>)"
    using s1 s2 by (simp add: call)
  have inb: "\<And>x' y'. in_bounds (canvas ?bt1) x' y' = in_bounds (canvas bt) x' y'"
    by (rule in_bounds_cong_shape) (simp add: sh1(1))
  have cells: "\<forall>x' y'. in_bounds (canvas bt) x' y' \<longrightarrow>
          cv2 ! nat y' ! nat x' =
            (case last_write (call # rest) x' y' of
               None \<Rightarrow> canvas bt ! nat y' ! nat x' | Some (ch, co) \<Rightarrow> ch)
        \<and> cc2 ! nat y' ! nat x' =
            (case last_write (call # rest) x' y' of
               None \<Rightarrow> colorCanvas bt ! nat y' ! nat x' | Some (ch, co) \<Rightarrow> co)"
  proof (intro allI impI)
    fix x' y' assume b: "in_bounds (canvas bt) x' y'"
    note one = c1 [rule_format, OF b]
    from b have b1: "in_bounds (canvas ?bt1) x' y'"
      by (simp only: inb)
    note two = c2 [rule_format, OF b1]
    show "cv2 ! nat y' ! nat x' =
            (case last_write (call # rest) x' y' of
               None \<Rightarrow> canvas bt ! nat y' ! nat x' | Some (ch, co) \<Rightarrow> ch)
        \<and> cc2 ! nat y' ! nat x' =
            (case last_write (call # rest) x' y' of
               None \<Rightarrow> colorCanvas bt ! nat y' ! nat x' | Some (ch, co) \<Rightarrow> co)"
    proof (cases "last_write rest x' y'")
      case None
      then show ?thesis using one two by (simp add: call)
    next
      case (Some w)
      then show ?thesis using two by (cases w) (simp add: call)
    qed
  qed
  from run sh1 sh2 cells show ?case
    by (intro exI [of _ cv2] exI [of _ cc2]) simp
qed

lemma SetPixels0_total:
  "\<exists>cv. SetPixels0 bt calls = Inr (bt\<lparr>canvas := cv\<rparr>)
    \<and> map length cv = map length (canvas bt)
    \<and> (\<forall>x y. in_bounds (canvas bt) x y \<longrightarrow>
          cv ! nat y ! nat x =
            (case last_write calls x y of
               None \<Rightarrow> canvas bt ! nat y ! nat x | Some (char, color) \<Rightarrow> char))"
proof (induction calls arbitrary: bt)
  case Nil
  have "SetPixels0 bt [] = Inr (bt\<lparr>canvas := canvas bt\<rparr>)"
    by simp
  then show ?case by (intro exI [of _ "canvas bt"]) simp
next
  case (Cons call rest)
  obtain x y char color where call: "call = (x, y, char, color)"
    by (cases call) auto
  from SetPixel0_total [of bt x y char]
  obtain cv1 where
    s1: "SetPixel0 bt x y char = Inr (bt\<lparr>canvas := cv1\<rparr>)" and
    sh1: "map length cv1 = map length (canvas bt)" and
    c1: "\<forall>x' y'. in_bounds (canvas bt) x' y' \<longrightarrow>
          cv1 ! nat y' ! nat x' =
            (if x' = x \<and> y' = y then char else canvas bt ! nat y' ! nat x')"
    by blast
  let ?bt1 = "bt\<lparr>canvas := cv1\<rparr>"
  from Cons.IH [of ?bt1]
  obtain cv2 where
    s2: "SetPixels0 ?bt1 rest = Inr (?bt1\<lparr>canvas := cv2\<rparr>)" and
    sh2: "map length cv2 = map length (canvas ?bt1)" and
    c2: "\<forall>x' y'. in_bounds (canvas ?bt1) x' y' \<longrightarrow>
          cv2 ! nat y' ! nat x' =
            (case last_write rest x' y' of
               None \<Rightarrow> canvas ?bt1 ! nat y' ! nat x' | Some (ch, co) \<Rightarrow> ch)"
    by blast
  have run: "SetPixels0 bt (call # rest) = Inr (bt\<lparr>canvas := cv2\<rparr>)"
    using s1 s2 by (simp add: call)
  have inb: "\<And>x' y'. in_bounds (canvas ?bt1) x' y' = in_bounds (canvas bt) x' y'"
    by (rule in_bounds_cong_shape) (simp add: sh1)
  have cells: "\<forall>x' y'. in_bounds (canvas bt) x' y' \<longrightarrow>
          cv2 ! nat y' ! nat x' =
            (case last_write (call # rest) x' y' of
               None \<Rightarrow> canvas bt ! nat y' ! nat x' | Some (ch, co) \<Rightarrow> ch)"
  proof (intro allI impI)
    fix x' y' assume b: "in_bounds (canvas bt) x' y'"
    note one = c1 [rule_format, OF b]
    from b have b1: "in_bounds (canvas ?bt1) x' y'"
      by (simp only: inb)
    note two = c2 [rule_format, OF b1]
    show "cv2 ! nat y' ! nat x' =
            (case last_write (call # rest) x' y' of
               None \<Rightarrow> canvas bt ! nat y' ! nat x' | Some (ch, co) \<Rightarrow> ch)"
    proof (cases "last_write rest x' y'")
      case None
      then show ?thesis using one two by (simp add: call)
    next
      case (Some w)
      then show ?thesis using two by (cases w) (simp add: call)
    qed
  qed
  from run sh1 sh2 cells show ?case
    by (intro exI [of _ cv2]) simp
qed

text \<open>
  C2. On a tree whose colour grid has the shape of its character grid (as every tree of
  \<open>NewBonsaiTree\<close> has), any sequence of \<open>SetPixel\<close> calls with arbitrary integer
  coordinates returns without a panic; it changes only the two grids; both keep their
  dimensions; and every cell of the grid holds what the last call addressed to exactly
  this cell wrote, or its old content when there was none, so a call outside the bounds
  has no effect. A single call outside the bounds returns the tree as it was. The
  three-argument \<open>SetPixel\<close> of \<open>src/main.go\<close> behaves the same on its one grid.
\<close>

theorem SetPixel_sequence_clipped:
  assumes "grid_ok bt"
  shows "(\<exists>cv cc. SetPixels bt calls = Inr (bt\<lparr>canvas := cv, colorCanvas := cc\<rparr>)
      \<and> map length cv = map length (canvas bt) \<and> map length cc = map length (colorCanvas bt)
      \<and> (\<forall>x y. in_bounds (canvas bt) x y \<longrightarrow>
            cv ! nat y ! nat x =
              (case last_write calls x y of
                 None \<Rightarrow> canvas bt ! nat y ! nat x | Some (char, color) \<Rightarrow> char)
          \<and> cc ! nat y ! nat x =
              (case last_write calls x y of
                 None \<Rightarrow> colorCanvas bt ! nat y ! nat x | Some (char, color) \<Rightarrow> color)))
    \<and> (\<not> in_bounds (canvas bt) x0 y0 \<longrightarrow> SetPixel bt x0 y0 char0 color0 = Inr bt)
    \<and> (\<exists>cv. SetPixels0 bt calls = Inr (bt\<lparr>canvas := cv\<rparr>)
      \<and> map length cv = map length (canvas bt)
      \<and> (\<forall>x y. in_bounds (canvas bt) x y \<longrightarrow>
            cv ! nat y ! nat x =
              (case last_write calls x y of
                 None \<Rightarrow> canvas bt ! nat y ! nat x | Some (char, color) \<Rightarrow> char)))"
  using SetPixels_total [OF assms, of calls] SetPixels0_total [of bt calls]
    SetPixel_out [of bt x0 y0 char0 color0]
  by blast

theorem SetPixel_sequence_clipped_witness:
  "grid_ok (blank_tree demo_config (\<lambda>i. 0))
   \<and> (\<exists>cv cc.
         SetPixels (blank_tree demo_config (\<lambda>i. 0))
           [(-1, 3, CHR ''a'', []), (2, 1, CHR ''b'', []), (12, 10, CHR ''c'', []),
            (2, 1, CHR ''d'', [])]
           = Inr ((blank_tree demo_config (\<lambda>i. 0))\<lparr>canvas := cv, colorCanvas := cc\<rparr>)
       \<and> map length cv = replicate 10 12
       \<and> cv ! 1 ! 2 = CHR ''d'' \<and> cv ! 3 ! 0 = CHR '' '')
   \<and> SetPixel (blank_tree demo_config (\<lambda>i. 0)) 12 10 CHR ''c'' []
       = Inr (blank_tree demo_config (\<lambda>i. 0))"
proof -
  let ?bt = "blank_tree demo_config (\<lambda>i. 0)"
  let ?calls = "[(-1, 3, CHR ''a'', []), (2, 1, CHR ''b'', []), (12, 10, CHR ''c'', []),
            (2, 1, CHR ''d'', [])] :: (int \<times> int \<times> rune \<times> string) list"
  have ok: "grid_ok ?bt"
    by (simp add: grid_ok_def blank_tree_def)
  have shape: "map length (canvas ?bt) = replicate 10 12"
    by (simp add: blank_tree_def demo_config_def)
  have in1: "in_bounds (canvas ?bt) 2 1"
    by (simp add: in_bounds_def blank_tree_def demo_config_def)
  have in2: "in_bounds (canvas ?bt) 0 3"
    by (simp add: in_bounds_def blank_tree_def demo_config_def)
  have out: "\<not> in_bounds (canvas ?bt) 12 10"
    by (simp add: in_bounds_def blank_tree_def demo_config_def)
  have w1: "last_write ?calls 2 1 = Some (CHR ''d'', [])"
    by simp
  have w2: "last_write ?calls 0 3 = None"
    by simp
  have old: "canvas ?bt ! nat 3 ! nat 0 = CHR '' ''"
    by (simp add: blank_tree_def demo_config_def)
  note t = SetPixel_sequence_clipped [OF ok, of ?calls 12 10 "CHR ''c''" "[]"]
  from t obtain cv cc where
    run: "SetPixels ?bt ?calls = Inr (?bt\<lparr>canvas := cv, colorCanvas := cc\<rparr>)" and
    sh: "map length cv = map length (canvas ?bt)" and
    cells: "\<forall>x y. in_bounds (canvas ?bt) x y \<longrightarrow>
            cv ! nat y ! nat x =
              (case last_write ?calls x y of
                 None \<Rightarrow> canvas ?bt ! nat y ! nat x | Some (char, color) \<Rightarrow> char)
          \<and> cc ! nat y ! nat x =
              (case last_write ?calls x y of
                 None \<Rightarrow> colorCanvas ?bt ! nat y ! nat x | Some (char, color) \<Rightarrow> color)"
    by blast
  from cells [rule_format, OF in1] w1 have c1: "cv ! 1 ! 2 = CHR ''d''"
    by simp
  from cells [rule_format, OF in2] w2 old have c2: "cv ! 3 ! 0 = CHR '' ''"
    by simp
  from t out have noop: "SetPixel ?bt 12 10 CHR ''c'' [] = Inr ?bt"
    by blast
  from sh shape have sh': "map length cv = replicate 10 12"
    by simp
  from ok run sh' c1 c2 noop show ?thesis
    by blast
qed

section \<open>First-step lift\<close>

lemma adjust_dy_age_1: "adjust_dy cfg y 1 dy = (if dy < 0 then dy else -2)"
  by (simp add: adjust_dy_def Let_def)

lemma GetDeltas_Trunk_young:
  "age \<le> 2 \<Longrightarrow> GetDeltas bt Trunk life age = Inr (dx, dy, bt') \<Longrightarrow> dy = 0"
  by (auto simp add: GetDeltas_def roll_pos)

text \<open>
  A stamp changes the character grid in the addressed cell only, where it stores the glyph
  that \<open>ChooseChar\<close> answers.
\<close>

lemma roll_keeps:
  "roll bt n = Inr (v, b) \<Longrightarrow> canvas b = canvas bt \<and> config b = config bt"
  by (auto simp add: roll_def Intn_def bnd_def split: if_splits sum.splits)

lemma ChooseChar_keeps:
  assumes "ChooseChar bt kind life dx dy = Inr (c, b)"
  shows "canvas b = canvas bt \<and> config b = config bt"
proof (cases "life < 4 \<or> kind = Dying \<or> kind = Dead")
  case True
  then have "leaf_glyph bt = Inr (c, b)"
    using assms by (simp add: ChooseChar_leaf)
  then show ?thesis
    by (auto simp add: leaf_glyph_def bnd_def dest: roll_keeps split: if_splits sum.splits prod.splits)
next
  case False
  with assms show ?thesis
    by (cases kind) (auto simp add: ChooseChar_def)
qed

lemma GetBranchColor_keeps:
  assumes "GetBranchColor bt kind = Inr (c, b)"
  shows "canvas b = canvas bt \<and> config b = config bt"
  using assms
  by (cases kind)
    (auto simp add: GetBranchColor_def bnd_def dest: roll_keeps split: if_splits sum.splits prod.splits)

lemma put_writes:
  assumes "put bt x y c col = Inr bt3"
  shows "canvas bt3 = (if in_bounds (canvas bt) x y
                       then (canvas bt)[nat y := (canvas bt ! nat y)[nat x := c]]
                       else canvas bt)"
  using assms
  by (auto simp add: put_def SetPixel_def SetPixelLive_def set_cell_def bnd_def
      split: if_splits sum.splits)

lemma stamp_writes:
  assumes "stamp bt x y kind life dx dy = Inr bt3"
  shows "\<exists>c b. ChooseChar bt kind life dx dy = Inr (c, b)
    \<and> canvas bt3 = (if in_bounds (canvas bt) x y
                     then (canvas bt)[nat y := (canvas bt ! nat y)[nat x := c]]
                     else canvas bt)"
proof -
  from assms obtain c b1 col b2 where
    ch: "ChooseChar bt kind life dx dy = Inr (c, b1)" and
    co: "GetBranchColor b1 kind = Inr (col, b2)" and
    pu: "put b2 x y c col = Inr bt3"
    by (auto simp add: stamp_def put_def bnd_def split: sum.splits prod.splits)
  from ChooseChar_keeps [OF ch] GetBranchColor_keeps [OF co]
  have "canvas b2 = canvas bt" by simp
  with put_writes [OF pu] ch show ?thesis by auto
qed


text \<open>
  C7, amended. The lift is tied to \<open>age = 1\<close>, that is to the step whose remaining life
  is \<open>LifeStart - 1\<close>: there a delta that does not ascend (after the ground clamp) becomes
  \<open>dy = -2\<close>, so the delta of that step is negative for every kind, and exactly \<open>-2\<close>
  for a trunk (whose drawn delta at this age is level). The iteration of the loop that
  starts at \<open>(x, y)\<close> with life \<open>LifeStart\<close> grows its child, if any, from \<open>(x, y)\<close>,
  then stamps at \<open>(x + dx, y + dy)\<close> with this negative \<open>dy\<close>, a row strictly above
  \<open>y\<close>, and goes on from there; the stamp stores the glyph in that cell of the grid and
  changes no other cell. This is the first step of the trunk that \<open>GrowTree\<close> starts with
  life \<open>LifeStart\<close>. At any other age \<open>dy\<close> is only subject to the ground clamp, so the
  first step of a branch whose remaining life is not \<open>LifeStart - 1\<close> is not lifted. In
  \<open>src/main.go\<close> \<open>Branch\<close> has no lift at all: a delta that does not ascend is left
  not ascending.
\<close>

theorem first_step_lift:
  "adjust_dy cfg y 1 dy = (if dy < 0 then dy else -2)
   \<and> (age \<noteq> 1 \<longrightarrow>
        adjust_dy cfg y age dy = (if dy > 0 \<and> y > Height cfg - 7 then dy - 1 else dy))
   \<and> (decide bt y kind (LifeStart (config bt) - 1) cd = Inr (dx, dy', cd', child, bt') \<longrightarrow>
        dy' < 0 \<and> (kind = Trunk \<longrightarrow> dy' = -2)
        \<and> (0 < LifeStart (config bt) \<longrightarrow>
             branch_loop (Suc n) bt x y kind (LifeStart (config bt)) cd =
               obnd (case child of
                       None \<Rightarrow> Some (Inr bt')
                     | Some (ck, cl) \<Rightarrow>
                         branch_loop n (bt'\<lparr>branches := branches bt' + 1\<rparr>) x y ck cl
                           (Multiplier (config bt'))) (\<lambda>bt2.
               obnd (Some (stamp bt2 (x + dx) (y + dy') kind (LifeStart (config bt) - 1) dx dy'))
                 (\<lambda>bt3.
               branch_loop n bt3 (x + dx) (y + dy') kind (LifeStart (config bt) - 1) (cd' - 1)))))
   \<and> (stamp b px py k l mx my = Inr b' \<longrightarrow>
        (\<exists>c b1. ChooseChar b k l mx my = Inr (c, b1)
           \<and> canvas b' = (if in_bounds (canvas b) px py
                           then (canvas b)[nat py := (canvas b ! nat py)[nat px := c]]
                           else canvas b)))
   \<and> (0 \<le> dy \<longrightarrow> 0 \<le> adjust_dy0 cfg y dy)"
proof -
  have old: "0 \<le> dy \<longrightarrow> 0 \<le> adjust_dy0 cfg y dy"
    by (simp add: adjust_dy0_def)
  have a: "age \<noteq> 1 \<longrightarrow>
        adjust_dy cfg y age dy = (if dy > 0 \<and> y > Height cfg - 7 then dy - 1 else dy)"
    by (simp add: adjust_dy_def Let_def)
  have d: "decide bt y kind (LifeStart (config bt) - 1) cd = Inr (dx, dy', cd', child, bt') \<longrightarrow>
        dy' < 0 \<and> (kind = Trunk \<longrightarrow> dy' = -2)
        \<and> (0 < LifeStart (config bt) \<longrightarrow>
             branch_loop (Suc n) bt x y kind (LifeStart (config bt)) cd =
               obnd (case child of
                       None \<Rightarrow> Some (Inr bt')
                     | Some (ck, cl) \<Rightarrow>
                         branch_loop n (bt'\<lparr>branches := branches bt' + 1\<rparr>) x y ck cl
                           (Multiplier (config bt'))) (\<lambda>bt2.
               obnd (Some (stamp bt2 (x + dx) (y + dy') kind (LifeStart (config bt) - 1) dx dy'))
                 (\<lambda>bt3.
               branch_loop n bt3 (x + dx) (y + dy') kind (LifeStart (config bt) - 1) (cd' - 1))))"
  proof
    assume run: "decide bt y kind (LifeStart (config bt) - 1) cd = Inr (dx, dy', cd', child, bt')"
    have age: "age_of (config bt) (LifeStart (config bt) - 1) = 1"
      by (simp add: age_of_def)
    from run obtain dy0 bt1 where
      g: "GetDeltas bt kind (LifeStart (config bt) - 1) 1 = Inr (dx, dy0, bt1)" and
      dy: "dy' = adjust_dy (config bt1) y 1 dy0"
      by (auto simp add: decide_def age Let_def bnd_def split: sum.splits prod.splits)
    from dy have neg: "dy' < 0"
      by (simp add: adjust_dy_age_1)
    have two: "kind = Trunk \<longrightarrow> dy' = -2"
    proof
      assume "kind = Trunk"
      with g have "dy0 = 0"
        using GetDeltas_Trunk_young [of 1 bt "LifeStart (config bt) - 1" dx dy0 bt1] by simp
      with dy show "dy' = -2" by (simp add: adjust_dy_age_1)
    qed
    have loop: "0 < LifeStart (config bt) \<longrightarrow>
             branch_loop (Suc n) bt x y kind (LifeStart (config bt)) cd =
               obnd (case child of
                       None \<Rightarrow> Some (Inr bt')
                     | Some (ck, cl) \<Rightarrow>
                         branch_loop n (bt'\<lparr>branches := branches bt' + 1\<rparr>) x y ck cl
                           (Multiplier (config bt'))) (\<lambda>bt2.
               obnd (Some (stamp bt2 (x + dx) (y + dy') kind (LifeStart (config bt) - 1) dx dy'))
                 (\<lambda>bt3.
               branch_loop n bt3 (x + dx) (y + dy') kind (LifeStart (config bt) - 1) (cd' - 1)))"
      using run by simp
    from neg two loop show "dy' < 0 \<and> (kind = Trunk \<longrightarrow> dy' = -2)
        \<and> (0 < LifeStart (config bt) \<longrightarrow>
             branch_loop (Suc n) bt x y kind (LifeStart (config bt)) cd =
               obnd (case child of
                       None \<Rightarrow> Some (Inr bt')
                     | Some (ck, cl) \<Rightarrow>
                         branch_loop n (bt'\<lparr>branches := branches bt' + 1\<rparr>) x y ck cl
                           (Multiplier (config bt'))) (\<lambda>bt2.
               obnd (Some (stamp bt2 (x + dx) (y + dy') kind (LifeStart (config bt) - 1) dx dy'))
                 (\<lambda>bt3.
               branch_loop n bt3 (x + dx) (y + dy') kind (LifeStart (config bt) - 1) (cd' - 1))))"
      by (intro conjI)
  qed
  have s: "stamp b px py k l mx my = Inr b' \<longrightarrow>
        (\<exists>c b1. ChooseChar b k l mx my = Inr (c, b1)
           \<and> canvas b' = (if in_bounds (canvas b) px py
                           then (canvas b)[nat py := (canvas b ! nat py)[nat px := c]]
                           else canvas b))"
    by (rule impI) (rule stamp_writes)
  from adjust_dy_age_1 [of cfg y dy] a d s old show ?thesis
    by (intro conjI)
qed

theorem first_step_lift_witness:
  "\<exists>bt3. (\<forall>n. branch_loop (Suc n) (blank_tree demo_config (\<lambda>i. 5)) 6 8 Trunk 32 5
                = branch_loop n bt3 7 6 Trunk 31 4)
     \<and> canvas bt3 = (canvas (blank_tree demo_config (\<lambda>i. 5)))
                       [6 := (replicate 12 CHR '' '')[7 := CHR ''/'']]"
proof -
  let ?bt = "blank_tree demo_config (\<lambda>i. 5)"
  let ?b2 = "?bt\<lparr>rng := \<lparr>draws = \<lambda>i. 5, pos = 2\<rparr>\<rparr>"
  have life: "LifeStart (config ?bt) = 32"
    by (simp add: blank_tree_def demo_config_def)
  have dec: "decide ?bt 8 Trunk (LifeStart (config ?bt) - 1) 5 = Inr (1, -2, 5, None, ?b2)"
    by (simp add: decide_def age_of_def GetDeltas_def spawn_def roll_pos go_mod_def Let_def
        blank_tree_def demo_config_def adjust_dy_def)
  have glyph: "ChooseChar ?b2 Trunk 31 1 (-2) = Inr (CHR ''/'', ?b2)"
    by (simp add: ChooseChar_def)
  have inside: "in_bounds (canvas ?b2) 7 6"
    by (simp add: in_bounds_def blank_tree_def demo_config_def)
  have row: "canvas ?b2 ! nat 6 = replicate 12 CHR '' ''"
    by (simp add: blank_tree_def demo_config_def)
  have plain: "\<not> UseColors (config ?bt)" "\<not> Live (config ?bt)"
    by (simp_all add: blank_tree_def demo_config_def)
  have ok: "grid_ok ?b2"
    by (simp add: grid_ok_def blank_tree_def)
  have "stamp ?b2 7 6 Trunk 31 1 (-2) = SetPixel ?b2 7 6 CHR ''/'' []"
    using plain by (simp add: stamp_def glyph GetBranchColor_def)
  then have "\<exists>b3. stamp ?b2 7 6 Trunk 31 1 (-2) = Inr b3"
    by (simp add: SetPixel_in [OF ok inside])
  then obtain b3 where st: "stamp ?b2 7 6 Trunk 31 1 (-2) = Inr b3"
    by blast
  note step = first_step_lift [where bt = ?bt and y = 8 and kind = Trunk and cd = 5 and dx = 1
        and dy' = "-2" and cd' = 5 and child = None and bt' = ?b2 and x = 6,
        THEN conjunct2, THEN conjunct2, THEN conjunct1, rule_format, OF dec,
        THEN conjunct2, THEN conjunct2, rule_format]
  have loop: "branch_loop (Suc n) ?bt 6 8 Trunk 32 5 = branch_loop n b3 7 6 Trunk 31 4" for n
    using step [of n] st by (simp add: life)
  from first_step_lift [where b = ?b2 and px = 7 and py = 6 and k = Trunk and l = 31
        and mx = 1 and my = "-2" and b' = b3,
        THEN conjunct2, THEN conjunct2, THEN conjunct2, THEN conjunct1, rule_format, OF st]
  obtain c b1 where
    c: "ChooseChar ?b2 Trunk 31 1 (-2) = Inr (c, b1)" and
    cv: "canvas b3 = (if in_bounds (canvas ?b2) 7 6
                      then (canvas ?b2)[nat 6 := (canvas ?b2 ! nat 6)[nat 7 := c]]
                      else canvas ?b2)"
    by blast
  from c glyph have "c = CHR ''/''" by simp
  with cv inside row have "canvas b3 = (canvas ?bt)[6 := (replicate 12 CHR '' '')[7 := CHR ''/'']]"
    by simp
  with loop show ?thesis by blast
qed

text \<open>
  C7 as stated (every invocation of \<open>Branch\<close>) fails for a child branch: with
  \<open>LifeStart = 32\<close>, a \<open>Dead\<close> branch grown with life 1 from the cell \<open>(5, 5)\<close>
  draws a level delta, is not lifted, and writes its only glyph in row 5, the row of its
  origin.
\<close>

theorem child_branch_not_lifted_counterexample:
  "map_option (map_sum id canvas) (Branch 2 (blank_tree demo_config (\<lambda>i. 5)) 5 5 Dead 1) =
     Some (Inr ((canvas (blank_tree demo_config (\<lambda>i. 5)))
                  [5 := (replicate 12 CHR '' '')[6 := CHR ''&'']]))"
  by code_simp

section \<open>Multiplier 0\<close>

text \<open>
  C3 fails on the code for \<open>Multiplier = 0\<close>, a value that \<open>main\<close> accepts: with life 4
  the first trunk step reaches \<open>life % Multiplier\<close> as soon as \<open>Intn(3)\<close> is not 0,
  and the run ends in the division panic instead of a tree.
\<close>

theorem multiplier_zero_panics:
  "map_option (map_sum id canvas)
     (generate (\<lambda>seed i. 1) (demo_config\<lparr>LifeStart := 4, Multiplier := 0\<rparr>) 12 10 1)
   = Some (Inl DivideByZero)"
  by code_simp

section \<open>Determinism of a tree\<close>

lemma grid_ok_lengths:
  assumes "grid_ok bt"
  shows "length (colorCanvas bt) = length (canvas bt)"
    and "i < length (canvas bt) \<Longrightarrow> length (colorCanvas bt ! i) = length (canvas bt ! i)"
proof -
  from assms show len: "length (colorCanvas bt) = length (canvas bt)"
    unfolding grid_ok_def by (metis length_map)
  assume "i < length (canvas bt)"
  with assms len show "length (colorCanvas bt ! i) = length (canvas bt ! i)"
    unfolding grid_ok_def by (metis nth_map)
qed

lemma clear_ok_grid: "grid_ok bt \<Longrightarrow> clear_ok (canvas bt) (colorCanvas bt)"
  by (simp add: clear_ok_def list_all_iff grid_ok_lengths)

lemma clear_canvas_grid:
  assumes "grid_ok bt"
  shows "clear_canvas bt =
     Inr (bt\<lparr>canvas := map (\<lambda>n. replicate n CHR '' '') (map length (canvas bt)),
             colorCanvas := map (\<lambda>n. replicate n []) (map length (canvas bt))\<rparr>)"
proof -
  let ?cv = "canvas bt" and ?cc = "colorCanvas bt"
  have chars: "map (\<lambda>row. replicate (length row) CHR '' '') ?cv =
      map (\<lambda>n. replicate n CHR '' '') (map length ?cv)"
    by simp
  have colours: "map (\<lambda>i. if i < length ?cv
                            then replicate (length (?cv ! i)) [] @ drop (length (?cv ! i)) (?cc ! i)
                            else ?cc ! i) [0..<length ?cc] =
      map (\<lambda>n. replicate n []) (map length ?cv)"
    by (rule nth_equalityI) (simp_all add: grid_ok_lengths [OF assms])
  show ?thesis
    using clear_ok_grid [OF assms] chars colours
    by (simp add: clear_canvas_def Let_def)
qed

section \<open>Every step returns\<close>

lemma advance_sel [simp]:
  "config (advance bt n) = config bt"
  "canvas (advance bt n) = canvas bt"
  "colorCanvas (advance bt n) = colorCanvas bt"
  "shoots (advance bt n) = shoots bt"
  "branches (advance bt n) = branches bt"
  "draws (rng (advance bt n)) = draws (rng bt)"
  "pos (rng (advance bt n)) = pos (rng bt) + n"
  by (simp_all add: advance_def)

lemma tree_inv_advance [simp]: "tree_inv cfg d (advance bt n) = tree_inv cfg d bt"
  by (simp add: tree_inv_def grid_ok_def advance_def)

lemma tree_inv_counters [simp]:
  "tree_inv cfg d (bt\<lparr>shoots := s\<rparr>) = tree_inv cfg d bt"
  "tree_inv cfg d (bt\<lparr>branches := b\<rparr>) = tree_inv cfg d bt"
  by (simp_all add: tree_inv_def grid_ok_def)

lemma roll_advance:
  "0 < n \<Longrightarrow> roll bt n = Inr (int (draws (rng bt) (pos (rng bt))) mod n, advance bt 1)"
  by (simp add: roll_pos advance_def)

lemma half_up_nonzero: "1 \<le> m \<Longrightarrow> half_up m \<noteq> 0"
  by (simp add: half_up_def signed_divide_int_def sgn_if)

lemma GetDeltas_total:
  assumes "tree_inv cfg d bt" and "1 \<le> Multiplier cfg"
  shows "\<exists>dx dy bt'. GetDeltas bt kind life age = Inr (dx, dy, bt') \<and> tree_inv cfg d bt'"
proof -
  from assms have m: "half_up (Multiplier (config bt)) \<noteq> 0"
    by (simp add: tree_inv_def half_up_nonzero)
  from assms(1) m show ?thesis
    by (cases kind) (simp_all add: GetDeltas_def roll_advance go_mod_def)
qed













lemma stamp_put:
  "stamp bt x y kind life dx dy =
     bnd (ChooseChar bt kind life dx dy) (\<lambda>(char, bt1).
     bnd (GetBranchColor bt1 kind) (\<lambda>(color, bt2). put bt2 x y char color))"
  by (simp add: stamp_def put_def)


section \<open>Fuel\<close>



section \<open>No panic\<close>


section \<open>Termination\<close>













lemma tree_inv_flags [simp]:
  "tree_inv cfg d (bt\<lparr>initialized := i\<rparr>) = tree_inv cfg d bt"
  "tree_inv cfg d (bt\<lparr>messageOffset := k\<rparr>) = tree_inv cfg d bt"
  by (simp_all add: tree_inv_def grid_ok_def)

lemma advance_advance: "advance (advance bt m) n = advance bt (m + n)"
  by (simp add: advance_def)






lemma clear_canvas_total:
  assumes "tree_inv cfg d bt"
  shows "\<exists>bt'. clear_canvas bt = Inr bt' \<and> tree_inv cfg d bt'"
proof -
  from assms have ok: "grid_ok bt" by (simp add: tree_inv_def)
  from assms show ?thesis
    by (simp add: clear_canvas_grid [OF ok] tree_inv_def grid_ok_def)
qed

lemma NewBonsaiTree_inv:
  assumes "0 \<le> width" and "0 \<le> height"
  shows "\<exists>bt. NewBonsaiTree src cfg width height = Inr bt
    \<and> tree_inv (cfg\<lparr>Width := width, Height := height\<rparr>) (src (Seed cfg)) bt"
  using assms by (simp add: NewBonsaiTree_def Let_def tree_inv_def grid_ok_def)








section \<open>A trunk that never returns\<close>

lemma branch_loop_forever:
  assumes "tree_inv cfg (\<lambda>i. 24) bt" and "Multiplier cfg = 5" and "9 \<le> life"
  shows "branch_loop fuel bt x y Trunk life cd = None"
  using assms
proof (induction fuel arbitrary: bt x y life cd)
  case 0
  then show ?case by simp
next
  case (Suc n)
  have m: "1 \<le> Multiplier cfg" using Suc.prems(2) by simp
  from GetDeltas_total [OF Suc.prems(1) m, of Trunk "life - 1" "age_of (config bt) (life - 1)"]
  obtain dx dy0 bt1 where
    g: "GetDeltas bt Trunk (life - 1) (age_of (config bt) (life - 1)) = Inr (dx, dy0, bt1)" and
    i1: "tree_inv cfg (\<lambda>i. 24) bt1"
    by blast
  from i1 have c1: "config bt1 = cfg" and d1: "draws (rng bt1) = (\<lambda>i. 24)"
    by (simp_all add: tree_inv_def)
  have s: "spawn bt1 Trunk (life - 1) cd = Inr (advance bt1 3, 10, Some (Trunk, life + 1))"
    using Suc.prems(2,3) c1 d1
    by (simp add: spawn_def Let_def roll_advance go_mod_def advance_advance numeral_3_eq_3)
  have dec: "decide bt y Trunk (life - 1) cd =
      Inr (dx, adjust_dy (config bt1) y (age_of (config bt) (life - 1)) dy0, 10,
           Some (Trunk, life + 1), advance bt1 3)"
    using g s by (simp add: decide_def Let_def)
  have "tree_inv cfg (\<lambda>i. 24) ((advance bt1 3)\<lparr>branches := branches (advance bt1 3) + 1\<rparr>)"
    using i1 by simp
  from Suc.IH [OF this Suc.prems(2), of "life + 1"] Suc.prems(3)
  have "branch_loop n ((advance bt1 3)\<lparr>branches := branches (advance bt1 3) + 1\<rparr>) x y Trunk
      (life + 1) (Multiplier (config (advance bt1 3))) = None"
    by simp
  with dec Suc.prems(3) show ?case by simp
qed

text \<open>
  Without such a bound the rules alone do not make the recursion stop. With the default life
  32 and multiplier 5 and a raw sequence whose values are all 24 (so that \<open>Intn(3)\<close> and
  \<open>Intn(8)\<close> give 0 and \<open>Intn(5)\<close> gives 4), the first trunk step forks a trunk with life
  33, which forks one with life 34, and so on: no amount of fuel lets generation return.
  This is a sequence of raw values, not one that a seed of the library generator is known
  to produce.
\<close>

lemma constant_stream_never_returns:
  "generate (\<lambda>seed i. 24) demo_config 12 10 fuel = None"
proof -
  have w: "(0::int) \<le> 12" and h: "(0::int) \<le> 10"
    by simp_all
  let ?cfg = "demo_config\<lparr>Width := 12, Height := 10\<rparr>"
  from NewBonsaiTree_inv [OF w h, of "\<lambda>seed i. 24" demo_config]
  obtain bt0 where
    n: "NewBonsaiTree (\<lambda>seed i. 24) demo_config 12 10 = Inr bt0" and
    i: "tree_inv ?cfg (\<lambda>i. 24) bt0"
    by blast
  let ?reset = "bt0\<lparr>branches := 0, shoots := 0, initialized := False, messageOffset := 0\<rparr>"
  have "tree_inv ?cfg (\<lambda>i. 24) ?reset" using i by simp
  from clear_canvas_total [OF this]
  obtain bt1 where c: "clear_canvas ?reset = Inr bt1" and i1: "tree_inv ?cfg (\<lambda>i. 24) bt1"
    by blast
  from i1 have c1: "config bt1 = ?cfg" by (simp add: tree_inv_def)
  have live: "\<not> Live (config bt1)" and base: "BaseType (config bt1) = 0"
    and life: "LifeStart (config bt1) = 32" and mult: "Multiplier ?cfg = 5"
    by (simp_all add: c1 demo_config_def)
  from base have b: "DrawBase bt1 = Inr bt1" by (simp add: DrawBase_def)
  have "tree_inv ?cfg (\<lambda>i. 24) (bt1\<lparr>branches := branches bt1 + 1\<rparr>)"
    using i1 by simp
  from branch_loop_forever [OF this mult, of 32 fuel]
  have "Branch fuel bt1 (go_div (Width (config bt1)) 2) (Height (config bt1) + 2) Trunk 32 = None"
    by (simp add: Branch_def)
  with n c live base life b show "generate (\<lambda>seed i. 24) demo_config 12 10 fuel = None"
    by (simp add: generate_def GrowTree_def Let_def)
qed



section \<open>Two runs in step\<close>

lemma same_grid_fields:
  assumes "same_grid b1 b2"
  shows "canvas b1 = canvas b2" and "rng b1 = rng b2" and "shoots b1 = shoots b2"
    and "LifeStart (config b1) = LifeStart (config b2)"
    and "Multiplier (config b1) = Multiplier (config b2)"
    and "BaseType (config b1) = BaseType (config b2)"
    and "Leaves (config b1) = Leaves (config b2)"
    and "UseColors (config b1) = UseColors (config b2)"
    and "Width (config b1) = Width (config b2)"
    and "Height (config b1) = Height (config b2)"
    and "grid_ok b1" and "grid_ok b2"
  using assms by (simp_all add: same_grid_def relevant_def)

lemma same_grid_advance: "same_grid b1 b2 \<Longrightarrow> same_grid (advance b1 n) (advance b2 n)"
  by (simp add: same_grid_def grid_ok_def advance_def)

lemma same_grid_counters:
  "same_grid b1 b2 \<Longrightarrow> same_grid (b1\<lparr>branches := k1\<rparr>) (b2\<lparr>branches := k2\<rparr>)"
  "same_grid b1 b2 \<Longrightarrow> same_grid (b1\<lparr>shoots := s\<rparr>) (b2\<lparr>shoots := s\<rparr>)"
  "same_grid b1 b2 \<Longrightarrow> same_grid (b1\<lparr>initialized := i1\<rparr>) b2"
  "same_grid b1 b2 \<Longrightarrow> same_grid b1 (b2\<lparr>initialized := i2\<rparr>)"
  "same_grid b1 b2 \<Longrightarrow> same_grid (b1\<lparr>messageOffset := m1\<rparr>) b2"
  "same_grid b1 b2 \<Longrightarrow> same_grid b1 (b2\<lparr>messageOffset := m2\<rparr>)"
  by (simp_all add: same_grid_def grid_ok_def)

lemma bnd_rel:
  assumes "rel_sum (=) R m1 m2"
    and "\<And>a b. R a b \<Longrightarrow> rel_sum (=) S (f a) (g b)"
  shows "rel_sum (=) S (bnd m1 f) (bnd m2 g)"
  using assms by (cases m1; cases m2) simp_all

lemma obnd_rel:
  assumes "rel_option (rel_sum (=) R) m1 m2"
    and "\<And>a b. R a b \<Longrightarrow> rel_option (rel_sum (=) S) (f a) (g b)"
  shows "rel_option (rel_sum (=) S) (obnd m1 f) (obnd m2 g)"
proof (cases m1)
  case None
  with assms(1) show ?thesis by (cases m2) simp_all
next
  case (Some r1)
  with assms(1) obtain r2 where m2: "m2 = Some r2" and r: "rel_sum (=) R r1 r2"
    by (cases m2) simp_all
  from r Some m2 assms(2) show ?thesis
    by (cases r1; cases r2) simp_all
qed

lemma roll_rel:
  assumes "same_grid b1 b2"
  shows "rel_sum (=) (\<lambda>(v1, c1) (v2, c2). v1 = v2 \<and> same_grid c1 c2) (roll b1 n) (roll b2 n)"
proof (cases "0 < n")
  case True
  with assms show ?thesis
    by (simp add: roll_advance same_grid_advance same_grid_fields(2))
next
  case False
  then show ?thesis by (simp add: roll_def Intn_def)
qed

lemma GetDeltas_rel:
  assumes "same_grid b1 b2"
  shows "rel_sum (=) (\<lambda>(dx1, dy1, c1) (dx2, dy2, c2). dx1 = dx2 \<and> dy1 = dy2 \<and> same_grid c1 c2)
     (GetDeltas b1 kind life age) (GetDeltas b2 kind life age)"
proof -
  note adv = same_grid_advance [OF assms]
  from assms have r: "rng b1 = rng b2" and m: "Multiplier (config b1) = Multiplier (config b2)"
    by (simp_all add: same_grid_fields)
  show ?thesis
    by (cases kind)
      (simp_all add: GetDeltas_def roll_advance go_mod_def advance_advance adv r m)
qed

lemma spawn_rel:
  assumes "same_grid b1 b2"
  shows "rel_sum (=) (\<lambda>(c1, cd1, ch1) (c2, cd2, ch2). cd1 = cd2 \<and> ch1 = ch2 \<and> same_grid c1 c2)
     (spawn b1 kind life cd) (spawn b2 kind life cd)"
proof -
  note adv = same_grid_advance [OF assms]
  from assms have r: "rng b1 = rng b2" and m: "Multiplier (config b1) = Multiplier (config b2)"
    and s: "shoots b1 = shoots b2"
    by (simp_all add: same_grid_fields)
  have sh: "\<And>n. same_grid ((advance b1 n)\<lparr>shoots := shoots b2 + 1\<rparr>)
      ((advance b2 n)\<lparr>shoots := shoots b2 + 1\<rparr>)"
    by (intro same_grid_counters adv)
  show ?thesis
    by (simp add: spawn_def Let_def roll_advance go_mod_def advance_advance adv r m s sh assms)
qed

lemma decide_rel:
  assumes "same_grid b1 b2"
  shows "rel_sum (=)
     (\<lambda>(dx1, dy1, cd1, ch1, c1) (dx2, dy2, cd2, ch2, c2).
        dx1 = dx2 \<and> dy1 = dy2 \<and> cd1 = cd2 \<and> ch1 = ch2 \<and> same_grid c1 c2)
     (decide b1 y kind life cd) (decide b2 y kind life cd)"
proof -
  from assms have age: "age_of (config b1) life = age_of (config b2) life"
    by (simp add: age_of_def same_grid_fields)
  show ?thesis
    unfolding decide_def Let_def age
  proof (rule bnd_rel [OF GetDeltas_rel [OF assms]], clarify)
    fix dx dy0 c1 c2
    assume c: "same_grid c1 c2"
    then have adj: "adjust_dy (config c1) y (age_of (config b2) life) dy0
        = adjust_dy (config c2) y (age_of (config b2) life) dy0"
      by (simp add: adjust_dy_def same_grid_fields)
    show "rel_sum (=)
        (\<lambda>(dx1, dy1, cd1, ch1, c1) (dx2, dy2, cd2, ch2, c2).
          dx1 = dx2 \<and> dy1 = dy2 \<and> cd1 = cd2 \<and> ch1 = ch2 \<and> same_grid c1 c2)
        (bnd (spawn c1 kind life cd) (\<lambda>(bt2, cd, child).
           Inr (dx, adjust_dy (config c1) y (age_of (config b2) life) dy0, cd, child, bt2)))
        (bnd (spawn c2 kind life cd) (\<lambda>(bt2, cd, child).
           Inr (dx, adjust_dy (config c2) y (age_of (config b2) life) dy0, cd, child, bt2)))"
      by (rule bnd_rel [OF spawn_rel [OF c]]) (auto simp add: adj)
  qed
qed

lemma leaf_glyph_rel:
  assumes "same_grid b1 b2"
  shows "rel_sum (=) (\<lambda>(g1, c1) (g2, c2). g1 = g2 \<and> same_grid c1 c2)
     (leaf_glyph b1) (leaf_glyph b2)"
proof -
  note adv = same_grid_advance [OF assms]
  from assms have r: "rng b1 = rng b2" and l: "Leaves (config b1) = Leaves (config b2)"
    by (simp_all add: same_grid_fields)
  show ?thesis
  proof (cases "Leaves (config b2) = []")
    case True
    with assms l show ?thesis by (simp add: leaf_glyph_def)
  next
    case False
    then have len: "0 < int (length (Leaves (config b2)))" by simp
    show ?thesis
      using False
      by (simp add: leaf_glyph_def l r roll_advance [OF len] adv bnd_def
          split: sum.splits)
  qed
qed

lemma ChooseChar_rel:
  assumes "same_grid b1 b2"
  shows "rel_sum (=) (\<lambda>(g1, c1) (g2, c2). g1 = g2 \<and> same_grid c1 c2)
     (ChooseChar b1 kind life dx dy) (ChooseChar b2 kind life dx dy)"
  using assms leaf_glyph_rel [OF assms]
  by (cases "if life < 4 then Dying else kind") (simp_all add: ChooseChar_def)

lemma GetBranchColor_rel:
  assumes "same_grid b1 b2"
  shows "rel_sum (=) (\<lambda>(col1, c1) (col2, c2). same_grid c1 c2)
     (GetBranchColor b1 kind) (GetBranchColor b2 kind)"
proof -
  note adv = same_grid_advance [OF assms]
  from assms have u: "UseColors (config b1) = UseColors (config b2)"
    by (simp add: same_grid_fields)
  from assms show ?thesis
    by (cases kind) (simp_all add: GetBranchColor_def u roll_advance adv)
qed

text \<open>
  A write puts the same character into both character grids, whether the tree is in live
  mode or not and whatever the colour; the colour grid keeps its shape.
\<close>

lemma put_rel:
  assumes "same_grid b1 b2"
  shows "rel_sum (=) same_grid (put b1 x y char col1) (put b2 x y char col2)"
proof -
  have one: "\<exists>cc. put b x y char col =
        Inr (b\<lparr>canvas := (if in_bounds (canvas b) x y
                             then (canvas b)[nat y := (canvas b ! nat y)[nat x := char]]
                             else canvas b),
              colorCanvas := cc\<rparr>)
      \<and> map length cc = map length (colorCanvas b)"
    if ok: "grid_ok b" for b col
  proof (cases "in_bounds (canvas b) x y")
    case False
    have "put b x y char col = Inr (b\<lparr>canvas := canvas b, colorCanvas := colorCanvas b\<rparr>)"
      using False by (simp add: put_def SetPixel_def SetPixelLive_def)
    with False show ?thesis by (intro exI [of _ "colorCanvas b"]) simp
  next
    case True
    then have b: "0 \<le> y" "nat y < length (canvas b)" "0 \<le> x" "nat x < length (canvas b ! nat y)"
      by (auto simp add: in_bounds_def)
    show ?thesis
    proof (cases "Live (config b)")
      case live: True
      have "put b x y char col =
          Inr (b\<lparr>canvas := (canvas b)[nat y := (canvas b ! nat y)[nat x := char]],
                 colorCanvas := colorCanvas b\<rparr>)"
        using live True b by (simp add: put_def SetPixelLive_def set_cell_ok)
      with True show ?thesis by (intro exI [of _ "colorCanvas b"]) simp
    next
      case False
      have "put b x y char col =
          Inr (b\<lparr>canvas := (canvas b)[nat y := (canvas b ! nat y)[nat x := char]],
                 colorCanvas := (colorCanvas b)[nat y := (colorCanvas b ! nat y)[nat x := col]]\<rparr>)"
        using False SetPixel_in [OF ok True] by (simp add: put_def)
      with True show ?thesis
        by (intro exI [of _ "(colorCanvas b)[nat y := (colorCanvas b ! nat y)[nat x := col]]"])
          (simp add: shape_update)
    qed
  qed
  from assms have ok1: "grid_ok b1" and ok2: "grid_ok b2" and cv: "canvas b1 = canvas b2"
    by (simp_all add: same_grid_fields)
  from one [OF ok1, of col1] obtain cc1 where
    p1: "put b1 x y char col1 =
        Inr (b1\<lparr>canvas := (if in_bounds (canvas b1) x y
                             then (canvas b1)[nat y := (canvas b1 ! nat y)[nat x := char]]
                             else canvas b1),
              colorCanvas := cc1\<rparr>)" and s1: "map length cc1 = map length (colorCanvas b1)"
    by blast
  from one [OF ok2, of col2] obtain cc2 where
    p2: "put b2 x y char col2 =
        Inr (b2\<lparr>canvas := (if in_bounds (canvas b2) x y
                             then (canvas b2)[nat y := (canvas b2 ! nat y)[nat x := char]]
                             else canvas b2),
              colorCanvas := cc2\<rparr>)" and s2: "map length cc2 = map length (colorCanvas b2)"
    by blast
  from assms s1 s2 show ?thesis
    by (simp only: p1 p2) (auto simp add: same_grid_def grid_ok_def shape_update)
qed

lemma stamp_rel:
  assumes "same_grid b1 b2"
  shows "rel_sum (=) same_grid
     (stamp b1 x y kind life dx dy) (stamp b2 x y kind life dx dy)"
  unfolding stamp_put
proof (rule bnd_rel [OF ChooseChar_rel [OF assms]], clarify)
  fix g c1 c2
  assume c: "same_grid c1 c2"
  show "rel_sum (=) same_grid
      (bnd (GetBranchColor c1 kind) (\<lambda>(color, bt2). put bt2 x y g color))
      (bnd (GetBranchColor c2 kind) (\<lambda>(color, bt2). put bt2 x y g color))"
    by (rule bnd_rel [OF GetBranchColor_rel [OF c]]) (auto intro: put_rel)
qed

lemma branch_loop_rel:
  "same_grid b1 b2 \<Longrightarrow>
   rel_option (rel_sum (=) same_grid)
     (branch_loop n b1 x y kind life cd) (branch_loop n b2 x y kind life cd)"
proof (induction n arbitrary: b1 b2 x y kind life cd)
  case 0
  then show ?case by simp
next
  case (Suc n)
  show ?case
  proof (cases "0 < life")
    case False
    with Suc.prems show ?thesis by simp
  next
    case True
    have d: "rel_option (rel_sum (=)
        (\<lambda>(dx1, dy1, cd1, ch1, c1) (dx2, dy2, cd2, ch2, c2).
          dx1 = dx2 \<and> dy1 = dy2 \<and> cd1 = cd2 \<and> ch1 = ch2 \<and> same_grid c1 c2))
        (Some (decide b1 y kind (life - 1) cd)) (Some (decide b2 y kind (life - 1) cd))"
      using decide_rel [OF Suc.prems] by simp
    have "rel_option (rel_sum (=) same_grid)
        (obnd (Some (decide b1 y kind (life - 1) cd)) (\<lambda>(dx, dy, cd, child, bt1).
           obnd (case child of
                   None \<Rightarrow> Some (Inr bt1)
                 | Some (kind, childLife) \<Rightarrow>
                     branch_loop n (bt1\<lparr>branches := branches bt1 + 1\<rparr>) x y kind childLife
                       (Multiplier (config bt1))) (\<lambda>bt2.
           obnd (Some (stamp bt2 (x + dx) (y + dy) kind (life - 1) dx dy)) (\<lambda>bt3.
           branch_loop n bt3 (x + dx) (y + dy) kind (life - 1) (cd - 1)))))
        (obnd (Some (decide b2 y kind (life - 1) cd)) (\<lambda>(dx, dy, cd, child, bt1).
           obnd (case child of
                   None \<Rightarrow> Some (Inr bt1)
                 | Some (kind, childLife) \<Rightarrow>
                     branch_loop n (bt1\<lparr>branches := branches bt1 + 1\<rparr>) x y kind childLife
                       (Multiplier (config bt1))) (\<lambda>bt2.
           obnd (Some (stamp bt2 (x + dx) (y + dy) kind (life - 1) dx dy)) (\<lambda>bt3.
           branch_loop n bt3 (x + dx) (y + dy) kind (life - 1) (cd - 1)))))"
    proof (rule obnd_rel [OF d], clarify)
      fix dx dy cd' ch c1 c2
      assume c: "same_grid c1 c2"
      have child: "rel_option (rel_sum (=) same_grid)
          (case ch of
             None \<Rightarrow> Some (Inr c1)
           | Some (kind, childLife) \<Rightarrow>
               branch_loop n (c1\<lparr>branches := branches c1 + 1\<rparr>) x y kind childLife
                 (Multiplier (config c1)))
          (case ch of
             None \<Rightarrow> Some (Inr c2)
           | Some (kind, childLife) \<Rightarrow>
               branch_loop n (c2\<lparr>branches := branches c2 + 1\<rparr>) x y kind childLife
                 (Multiplier (config c2)))"
      proof (cases ch)
        case None
        with c show ?thesis by simp
      next
        case (Some p)
        obtain ck cl where p: "p = (ck, cl)" by (cases p) auto
        have "same_grid (c1\<lparr>branches := branches c1 + 1\<rparr>) (c2\<lparr>branches := branches c2 + 1\<rparr>)"
          using c by (rule same_grid_counters)
        from Suc.IH [OF this, of x y ck cl "Multiplier (config c2)"] Some p c
        show ?thesis by (simp add: same_grid_fields(5))
      qed
      show "rel_option (rel_sum (=) same_grid)
          (obnd (case ch of
                   None \<Rightarrow> Some (Inr c1)
                 | Some (kind, childLife) \<Rightarrow>
                     branch_loop n (c1\<lparr>branches := branches c1 + 1\<rparr>) x y kind childLife
                       (Multiplier (config c1))) (\<lambda>bt2.
           obnd (Some (stamp bt2 (x + dx) (y + dy) kind (life - 1) dx dy)) (\<lambda>bt3.
           branch_loop n bt3 (x + dx) (y + dy) kind (life - 1) (cd' - 1))))
          (obnd (case ch of
                   None \<Rightarrow> Some (Inr c2)
                 | Some (kind, childLife) \<Rightarrow>
                     branch_loop n (c2\<lparr>branches := branches c2 + 1\<rparr>) x y kind childLife
                       (Multiplier (config c2))) (\<lambda>bt2.
           obnd (Some (stamp bt2 (x + dx) (y + dy) kind (life - 1) dx dy)) (\<lambda>bt3.
           branch_loop n bt3 (x + dx) (y + dy) kind (life - 1) (cd' - 1))))"
      proof (rule obnd_rel [OF child])
        fix e1 e2
        assume e: "same_grid e1 e2"
        have st: "rel_option (rel_sum (=) same_grid)
            (Some (stamp e1 (x + dx) (y + dy) kind (life - 1) dx dy))
            (Some (stamp e2 (x + dx) (y + dy) kind (life - 1) dx dy))"
          using stamp_rel [OF e] by simp
        show "rel_option (rel_sum (=) same_grid)
            (obnd (Some (stamp e1 (x + dx) (y + dy) kind (life - 1) dx dy)) (\<lambda>bt3.
               branch_loop n bt3 (x + dx) (y + dy) kind (life - 1) (cd' - 1)))
            (obnd (Some (stamp e2 (x + dx) (y + dy) kind (life - 1) dx dy)) (\<lambda>bt3.
               branch_loop n bt3 (x + dx) (y + dy) kind (life - 1) (cd' - 1)))"
          by (rule obnd_rel [OF st]) (rule Suc.IH)
      qed
    qed
    with True show ?thesis by simp
  qed
qed

lemma draw_line_rel:
  assumes "same_grid b1 b2"
  shows "rel_sum (=) same_grid (draw_line cell startX y i s b1) (draw_line cell startX y i s b2)"
  using assms
proof (induction s arbitrary: i b1 b2)
  case Nil
  then show ?case by simp
next
  case (Cons c rest)
  show ?case
  proof (cases "cell i c")
    case (Inl e)
    then show ?thesis by simp
  next
    case (Inr r)
    show ?thesis
    proof (cases r)
      case None
      with Inr Cons.IH [OF Cons.prems] show ?thesis by simp
    next
      case (Some p)
      obtain ch col where p: "p = (ch, col)" by (cases p) auto
      from put_rel [OF Cons.prems, of "startX + i" y ch col col]
      have "rel_sum (=) same_grid
          (bnd (put b1 (startX + i) y ch col) (draw_line cell startX y (i + 1) rest))
          (bnd (put b2 (startX + i) y ch col) (draw_line cell startX y (i + 1) rest))"
        by (rule bnd_rel) (rule Cons.IH)
      with Inr Some p show ?thesis by (simp add: bnd_def)
    qed
  qed
qed

lemma GetBaseColor_same: "same_grid a b \<Longrightarrow> GetBaseColor a = GetBaseColor b"
  by (simp add: GetBaseColor_def same_grid_fields)

lemma grass_cell_same:
  "same_grid a b \<Longrightarrow> grass_cell (config a) sx by gc = grass_cell (config b) sx by gc"
  by (intro ext) (simp add: grass_cell_def same_grid_fields)

lemma DrawBase_rel:
  assumes "same_grid b1 b2"
  shows "rel_sum (=) same_grid (DrawBase b1) (DrawBase b2)"
proof -
  note f = same_grid_fields [OF assms]
  let ?baseY = "Height (config b2) - 1"
  let ?centerX = "go_div (Width (config b2)) 2"
  consider "BaseType (config b2) = 0" | "BaseType (config b2) = 1" | "BaseType (config b2) = 2"
    | "BaseType (config b2) \<noteq> 0" "BaseType (config b2) \<noteq> 1" "BaseType (config b2) \<noteq> 2"
    by blast
  then show ?thesis
  proof cases
    case 1
    with assms f show ?thesis by (simp add: DrawBase_def)
  next
    case 2
    let ?gc = "if UseColors (config b2) then ColorBrightGreen else []"
    let ?bc = "GetBaseColor b2"
    have "rel_sum (=) same_grid
        (bnd (draw_line (rim_cell ?bc ?gc) (start_of ?centerX pot1_rim) (?baseY - 3) 0 pot1_rim b1)
          (\<lambda>bt1. bnd (draw_line (plain_cell ?bc) (start_of ?centerX pot1_line2)
                         (?baseY - 2) 0 pot1_line2 bt1)
          (\<lambda>bt2. bnd (draw_line (plain_cell ?bc) (start_of ?centerX pot1_line1)
                         (?baseY - 1) 0 pot1_line1 bt2)
          (\<lambda>bt3. draw_line (plain_cell ?bc) (start_of ?centerX pot1_base)
                         ?baseY 0 pot1_base bt3))))
        (bnd (draw_line (rim_cell ?bc ?gc) (start_of ?centerX pot1_rim) (?baseY - 3) 0 pot1_rim b2)
          (\<lambda>bt1. bnd (draw_line (plain_cell ?bc) (start_of ?centerX pot1_line2)
                         (?baseY - 2) 0 pot1_line2 bt1)
          (\<lambda>bt2. bnd (draw_line (plain_cell ?bc) (start_of ?centerX pot1_line1)
                         (?baseY - 1) 0 pot1_line1 bt2)
          (\<lambda>bt3. draw_line (plain_cell ?bc) (start_of ?centerX pot1_base)
                         ?baseY 0 pot1_base bt3))))"
      by (rule bnd_rel [OF draw_line_rel [OF assms]], rule bnd_rel [OF draw_line_rel], assumption,
          rule bnd_rel [OF draw_line_rel], assumption, rule draw_line_rel, assumption)
    with 2 f show ?thesis
      by (simp add: DrawBase_def Let_def GetBaseColor_same [OF assms])
  next
    case 3
    let ?gc = "if UseColors (config b2) then ColorMediumGreen else []"
    let ?start = "start_of ?centerX pot2_grassLine"
    have last2: "rel_sum (=) same_grid
        (bnd (draw_line (plain_cell (GetBaseColor a)) (start_of ?centerX pot2_line1)
                (?baseY - 1) 0 pot2_line1 a)
          (\<lambda>bt3. draw_line (plain_cell (GetBaseColor a)) (start_of ?centerX pot2_base)
                ?baseY 0 pot2_base bt3))
        (bnd (draw_line (plain_cell (GetBaseColor b)) (start_of ?centerX pot2_line1)
                (?baseY - 1) 0 pot2_line1 b)
          (\<lambda>bt3. draw_line (plain_cell (GetBaseColor b)) (start_of ?centerX pot2_base)
                ?baseY 0 pot2_base bt3))"
      if ab: "same_grid a b" for a b
      unfolding GetBaseColor_same [OF ab]
      by (rule bnd_rel [OF draw_line_rel [OF ab]], rule draw_line_rel, assumption)
    have "rel_sum (=) same_grid
        (bnd (draw_line (grass_cell (config b2) ?start ?baseY ?gc) ?start
                (?baseY - 3) 0 pot2_grassLine b1)
          (\<lambda>bt1. bnd (draw_line (plain_cell ?gc) (start_of ?centerX pot2_line2)
                         (?baseY - 2) 0 pot2_line2 bt1)
          (\<lambda>bt2. bnd (draw_line (plain_cell (GetBaseColor bt2)) (start_of ?centerX pot2_line1)
                         (?baseY - 1) 0 pot2_line1 bt2)
          (\<lambda>bt3. draw_line (plain_cell (GetBaseColor bt2)) (start_of ?centerX pot2_base)
                         ?baseY 0 pot2_base bt3))))
        (bnd (draw_line (grass_cell (config b2) ?start ?baseY ?gc) ?start
                (?baseY - 3) 0 pot2_grassLine b2)
          (\<lambda>bt1. bnd (draw_line (plain_cell ?gc) (start_of ?centerX pot2_line2)
                         (?baseY - 2) 0 pot2_line2 bt1)
          (\<lambda>bt2. bnd (draw_line (plain_cell (GetBaseColor bt2)) (start_of ?centerX pot2_line1)
                         (?baseY - 1) 0 pot2_line1 bt2)
          (\<lambda>bt3. draw_line (plain_cell (GetBaseColor bt2)) (start_of ?centerX pot2_base)
                         ?baseY 0 pot2_base bt3))))"
      by (rule bnd_rel [OF draw_line_rel [OF assms]], rule bnd_rel [OF draw_line_rel], assumption,
          rule last2, assumption)
    with 3 f show ?thesis
      by (simp add: DrawBase_def Let_def grass_cell_same [OF assms])
  next
    case 4
    with assms f show ?thesis by (simp add: DrawBase_def Let_def)
  qed
qed

lemma same_grid_Render:
  "same_grid b1 b2 \<Longrightarrow>
   same_grid (if \<not> Live (config b1) then Render b1 else b1)
     (if \<not> Live (config b2) then Render b2 else b2)"
  by (simp add: Render_def Let_def same_grid_def grid_ok_def)

lemma clear_canvas_same:
  assumes "relevant (config bt1) = relevant (config bt2)" and "rng bt1 = rng bt2"
    and "map length (canvas bt1) = map length (canvas bt2)"
    and "grid_ok bt1" and "grid_ok bt2"
  shows "\<exists>c1 c2.
      clear_canvas (bt1\<lparr>branches := 0, shoots := 0, initialized := False, messageOffset := 0\<rparr>)
        = Inr c1
    \<and> clear_canvas (bt2\<lparr>branches := 0, shoots := 0, initialized := False, messageOffset := 0\<rparr>)
        = Inr c2
    \<and> same_grid c1 c2 \<and> config c1 = config bt1 \<and> config c2 = config bt2"
proof -
  let ?r1 = "bt1\<lparr>branches := 0, shoots := 0, initialized := False, messageOffset := 0\<rparr>"
  let ?r2 = "bt2\<lparr>branches := 0, shoots := 0, initialized := False, messageOffset := 0\<rparr>"
  have ok1: "grid_ok ?r1" using assms(4) by (simp add: grid_ok_def)
  have ok2: "grid_ok ?r2" using assms(5) by (simp add: grid_ok_def)
  show ?thesis
    using assms(1-3)
    by (simp add: clear_canvas_grid [OF ok1] clear_canvas_grid [OF ok2] same_grid_def grid_ok_def)
qed

lemma GrowTree_rel:
  assumes "relevant (config bt1) = relevant (config bt2)" and "rng bt1 = rng bt2"
    and "map length (canvas bt1) = map length (canvas bt2)"
    and "grid_ok bt1" and "grid_ok bt2"
  shows "rel_option (rel_sum (=) same_grid) (GrowTree fuel bt1) (GrowTree fuel bt2)"
proof -
  from clear_canvas_same [OF assms] obtain c1 c2 where
    cl1: "clear_canvas (bt1\<lparr>branches := 0, shoots := 0, initialized := False,
        messageOffset := 0\<rparr>) = Inr c1" and
    cl2: "clear_canvas (bt2\<lparr>branches := 0, shoots := 0, initialized := False,
        messageOffset := 0\<rparr>) = Inr c2" and
    c: "same_grid c1 c2"
    by blast
  let ?d1 = "if Live (config c1) then c1\<lparr>initialized := True\<rparr> else c1"
  let ?d2 = "if Live (config c2) then c2\<lparr>initialized := True\<rparr> else c2"
  have d: "same_grid ?d1 ?d2"
    using c by (simp add: same_grid_counters)
  have base: "rel_option (rel_sum (=) same_grid) (Some (DrawBase ?d1)) (Some (DrawBase ?d2))"
    using DrawBase_rel [OF d] by simp
  have "rel_option (rel_sum (=) same_grid)
      (obnd (Some (DrawBase ?d1)) (\<lambda>bt3.
         let startX = go_div (Width (config bt3)) 2;
             startY = Height (config bt3) + 2 - (if BaseType (config bt3) > 0 then 5 else 0)
         in obnd (Branch fuel bt3 startX startY Trunk (LifeStart (config bt3))) (\<lambda>bt4.
              Some (Inr (if \<not> Live (config bt4) then Render bt4 else bt4)))))
      (obnd (Some (DrawBase ?d2)) (\<lambda>bt3.
         let startX = go_div (Width (config bt3)) 2;
             startY = Height (config bt3) + 2 - (if BaseType (config bt3) > 0 then 5 else 0)
         in obnd (Branch fuel bt3 startX startY Trunk (LifeStart (config bt3))) (\<lambda>bt4.
              Some (Inr (if \<not> Live (config bt4) then Render bt4 else bt4)))))"
  proof (rule obnd_rel [OF base])
    fix e1 e2
    assume e: "same_grid e1 e2"
    note f = same_grid_fields [OF e]
    let ?x = "go_div (Width (config e2)) 2"
    let ?y = "Height (config e2) + 2 - (if BaseType (config e2) > 0 then 5 else 0)"
    have "same_grid (e1\<lparr>branches := branches e1 + 1\<rparr>) (e2\<lparr>branches := branches e2 + 1\<rparr>)"
      using e by (rule same_grid_counters)
    from branch_loop_rel [OF this, of fuel ?x ?y Trunk "LifeStart (config e2)"
        "Multiplier (config e2)"]
    have br: "rel_option (rel_sum (=) same_grid)
        (Branch fuel e1 ?x ?y Trunk (LifeStart (config e2)))
        (Branch fuel e2 ?x ?y Trunk (LifeStart (config e2)))"
      by (simp add: Branch_def f)
    have "rel_option (rel_sum (=) same_grid)
        (obnd (Branch fuel e1 ?x ?y Trunk (LifeStart (config e2))) (\<lambda>bt4.
              Some (Inr (if \<not> Live (config bt4) then Render bt4 else bt4))))
        (obnd (Branch fuel e2 ?x ?y Trunk (LifeStart (config e2))) (\<lambda>bt4.
              Some (Inr (if \<not> Live (config bt4) then Render bt4 else bt4))))"
      by (rule obnd_rel [OF br]) (simp add: same_grid_Render)
    then show "rel_option (rel_sum (=) same_grid)
        (let startX = go_div (Width (config e1)) 2;
             startY = Height (config e1) + 2 - (if BaseType (config e1) > 0 then 5 else 0)
         in obnd (Branch fuel e1 startX startY Trunk (LifeStart (config e1))) (\<lambda>bt4.
              Some (Inr (if \<not> Live (config bt4) then Render bt4 else bt4))))
        (let startX = go_div (Width (config e2)) 2;
             startY = Height (config e2) + 2 - (if BaseType (config e2) > 0 then 5 else 0)
         in obnd (Branch fuel e2 startX startY Trunk (LifeStart (config e2))) (\<lambda>bt4.
              Some (Inr (if \<not> Live (config bt4) then Render bt4 else bt4))))"
      by (simp add: Let_def f)
  qed
  then show ?thesis
    by (simp add: GrowTree_def cl1 cl2)
qed

lemma same_grid_canvas:
  assumes "rel_option (rel_sum (=) same_grid) r1 r2"
  shows "map_option (map_sum id canvas) r1 = map_option (map_sum id canvas) r2"
proof (cases r1)
  case None
  with assms show ?thesis by (cases r2) simp_all
next
  case (Some s1)
  with assms obtain s2 where r2: "r2 = Some s2" and s: "rel_sum (=) same_grid s1 s2"
    by (cases r2) simp_all
  from s Some r2 show ?thesis
    by (cases s1; cases s2) (simp_all add: same_grid_fields(1))
qed

text \<open>
  C1. The character grid that \<open>GrowTree\<close> produces (with the same fuel: the same grid,
  the same panic, or no result) is determined by the state of the generator, the relevant
  part of the configuration (life, multiplier, base type, leaves, colours, width and
  height) and the dimensions of the grids: two well-formed trees that agree on these give
  the same grid, whatever their grids held and their counters counted before, and whatever
  their other settings (live mode, message, printing) are; when the whole configurations
  agree, the whole results agree, colours included. For a run from \<open>NewBonsaiTree\<close>,
  which makes the generator from the seed: two configurations with the same seed and the
  same life, multiplier, base type, leaves and colours give the same grid on a terminal of
  the same size.
\<close>

theorem GrowTree_deterministic:
  assumes "relevant (config bt1) = relevant (config bt2)" and "rng bt1 = rng bt2"
    and "map length (canvas bt1) = map length (canvas bt2)"
    and "grid_ok bt1" and "grid_ok bt2"
  shows "map_option (map_sum id canvas) (GrowTree fuel bt1)
        = map_option (map_sum id canvas) (GrowTree fuel bt2)
    \<and> (config bt1 = config bt2 \<longrightarrow> GrowTree fuel bt1 = GrowTree fuel bt2)
    \<and> (Seed cfg1 = Seed cfg2 \<and> LifeStart cfg1 = LifeStart cfg2
         \<and> Multiplier cfg1 = Multiplier cfg2 \<and> BaseType cfg1 = BaseType cfg2
         \<and> Leaves cfg1 = Leaves cfg2 \<and> UseColors cfg1 = UseColors cfg2 \<longrightarrow>
        map_option (map_sum id canvas) (generate src cfg1 width height fuel)
        = map_option (map_sum id canvas) (generate src cfg2 width height fuel))"
proof -
  have grid: "map_option (map_sum id canvas) (GrowTree fuel bt1)
        = map_option (map_sum id canvas) (GrowTree fuel bt2)"
    using GrowTree_rel [OF assms] by (rule same_grid_canvas)
  have whole: "config bt1 = config bt2 \<longrightarrow> GrowTree fuel bt1 = GrowTree fuel bt2"
  proof
    assume c: "config bt1 = config bt2"
    let ?r1 = "bt1\<lparr>branches := 0, shoots := 0, initialized := False, messageOffset := 0\<rparr>"
    let ?r2 = "bt2\<lparr>branches := 0, shoots := 0, initialized := False, messageOffset := 0\<rparr>"
    have ok1: "grid_ok ?r1" using assms(4) by (simp add: grid_ok_def)
    have ok2: "grid_ok ?r2" using assms(5) by (simp add: grid_ok_def)
    have same: "?r1\<lparr>canvas := map (\<lambda>n. replicate n CHR '' '') (map length (canvas ?r1)),
                    colorCanvas := map (\<lambda>n. replicate n []) (map length (canvas ?r1))\<rparr>
              = ?r2\<lparr>canvas := map (\<lambda>n. replicate n CHR '' '') (map length (canvas ?r2)),
                    colorCanvas := map (\<lambda>n. replicate n []) (map length (canvas ?r2))\<rparr>"
      using c assms(2,3) by (intro BonsaiTree.equality) simp_all
    have "clear_canvas ?r1 = clear_canvas ?r2"
      by (simp only: clear_canvas_grid [OF ok1] clear_canvas_grid [OF ok2] same)
    then show "GrowTree fuel bt1 = GrowTree fuel bt2"
      by (simp add: GrowTree_def)
  qed
  have run: "Seed cfg1 = Seed cfg2 \<and> LifeStart cfg1 = LifeStart cfg2
         \<and> Multiplier cfg1 = Multiplier cfg2 \<and> BaseType cfg1 = BaseType cfg2
         \<and> Leaves cfg1 = Leaves cfg2 \<and> UseColors cfg1 = UseColors cfg2 \<longrightarrow>
        map_option (map_sum id canvas) (generate src cfg1 width height fuel)
        = map_option (map_sum id canvas) (generate src cfg2 width height fuel)"
  proof
    assume a: "Seed cfg1 = Seed cfg2 \<and> LifeStart cfg1 = LifeStart cfg2
         \<and> Multiplier cfg1 = Multiplier cfg2 \<and> BaseType cfg1 = BaseType cfg2
         \<and> Leaves cfg1 = Leaves cfg2 \<and> UseColors cfg1 = UseColors cfg2"
    show "map_option (map_sum id canvas) (generate src cfg1 width height fuel)
        = map_option (map_sum id canvas) (generate src cfg2 width height fuel)"
    proof (cases "height < 0 \<or> (0 < height \<and> width < 0)")
      case True
      then show ?thesis by (auto simp add: generate_def NewBonsaiTree_def Let_def)
    next
      case False
      let ?n1 = "\<lparr>canvas = replicate (nat height) (replicate (nat width) CHR '' ''),
                colorCanvas = replicate (nat height) (replicate (nat width) []),
                config = cfg1\<lparr>Width := width, Height := height\<rparr>,
                branches = 0, shoots = 0,
                rng = \<lparr>draws = src (Seed cfg1), pos = 0\<rparr>,
                initialized = False, messageOffset = 0\<rparr>"
      let ?n2 = "\<lparr>canvas = replicate (nat height) (replicate (nat width) CHR '' ''),
                colorCanvas = replicate (nat height) (replicate (nat width) []),
                config = cfg2\<lparr>Width := width, Height := height\<rparr>,
                branches = 0, shoots = 0,
                rng = \<lparr>draws = src (Seed cfg2), pos = 0\<rparr>,
                initialized = False, messageOffset = 0\<rparr>"
      from False have n1: "NewBonsaiTree src cfg1 width height = Inr ?n1"
        and n2: "NewBonsaiTree src cfg2 width height = Inr ?n2"
        by (auto simp add: NewBonsaiTree_def Let_def)
      have r: "relevant (config ?n1) = relevant (config ?n2)" using a by (simp add: relevant_def)
      have g: "rng ?n1 = rng ?n2" using a by simp
      have s: "map length (canvas ?n1) = map length (canvas ?n2)" by simp
      have ok1: "grid_ok ?n1" by (simp add: grid_ok_def)
      have ok2: "grid_ok ?n2" by (simp add: grid_ok_def)
      from GrowTree_rel [OF r g s ok1 ok2, of fuel] n1 n2 show ?thesis
        by (simp only: generate_def obnd_simps) (rule same_grid_canvas)
    qed
  qed
  from grid whole run show ?thesis by blast
qed

theorem GrowTree_deterministic_witness:
  "map_option (map_sum id canvas)
     (GrowTree 4
        ((blank_tree (demo_config\<lparr>LifeStart := 3, Multiplier := 2, Width := 6, Height := 4,
              Live := True, Message := ''bonsai''\<rparr>) (\<lambda>i. i * 5 + 1))
           \<lparr>canvas := replicate 4 (replicate 6 CHR ''#''), shoots := 7, branches := 3,
            initialized := True\<rparr>))
   = Some (Inr [''      '', ''      '', ''      '', ''  *   ''])
   \<and> map_option (map_sum id canvas)
     (GrowTree 4
        (blank_tree (demo_config\<lparr>LifeStart := 3, Multiplier := 2, Width := 6, Height := 4\<rparr>)
           (\<lambda>i. i * 5 + 1)))
   = Some (Inr [''      '', ''      '', ''      '', ''  *   ''])"
proof -
  let ?bt2 = "blank_tree (demo_config\<lparr>LifeStart := 3, Multiplier := 2, Width := 6, Height := 4\<rparr>)
      (\<lambda>i. i * 5 + 1)"
  let ?bt1 = "(blank_tree (demo_config\<lparr>LifeStart := 3, Multiplier := 2, Width := 6, Height := 4,
              Live := True, Message := ''bonsai''\<rparr>) (\<lambda>i. i * 5 + 1))
           \<lparr>canvas := replicate 4 (replicate 6 CHR ''#''), shoots := 7, branches := 3,
            initialized := True\<rparr>"
  have c: "relevant (config ?bt1) = relevant (config ?bt2)"
    by (simp add: relevant_def blank_tree_def)
  have r: "rng ?bt1 = rng ?bt2" by (simp add: blank_tree_def)
  have s: "map length (canvas ?bt1) = map length (canvas ?bt2)"
    by (simp add: blank_tree_def demo_config_def)
  have ok1: "grid_ok ?bt1" by (simp add: grid_ok_def blank_tree_def demo_config_def)
  have ok2: "grid_ok ?bt2" by (simp add: grid_ok_def blank_tree_def demo_config_def)
  from GrowTree_deterministic [OF c r s ok1 ok2, of 4]
  have same: "map_option (map_sum id canvas) (GrowTree 4 ?bt1)
      = map_option (map_sum id canvas) (GrowTree 4 ?bt2)" by blast
  have run: "map_option (map_sum id canvas) (GrowTree 4 ?bt2)
      = Some (Inr [''      '', ''      '', ''      '', ''  *   ''])"
    by code_simp
  from same run show ?thesis by simp
qed

end
